theory Spec2Isabelle
  imports Complex_Main "HOL-Library.AList"
begin

section \<open>Windowing engine (app/core/video\_processor.py)\<close>

text \<open>
  Times are Python floats.  They are modelled as reals: the window loop only adds the
  integer step and window size to a cursor that starts at \<open>0.0\<close>, compares, and subtracts two
  values at most the window size apart, which is exact in double precision for every value
  below \<open>2 ^ 53\<close>.  The signature declares \<open>window_size\<close> and \<open>step_size\<close> as \<open>int\<close>.
\<close>

record window =
  w_start :: real
  w_end :: real

text \<open>
  Python's \<open>round(x, 2)\<close>: the nearest value with two decimals, a tie going to the even
  neighbour.  On reals a tie is a value with exactly three decimals ending in \<open>5\<close>; a
  double is such a tie only when it is that value exactly (\<open>0.125\<close> is, \<open>2.675\<close> is not and
  rounds by the double nearest to it), so the two can differ in the last decimal at such
  values.  The window bounds are whole numbers or the duration itself.
\<close>

definition py_round2 :: "real \<Rightarrow> real" where
  "py_round2 x =
     (let y = x * 100; f = \<lfloor>y\<rfloor>; d = y - of_int f
      in (if d < 1 / 2 then of_int f
          else if 1 / 2 < d then of_int (f + 1)
          else if even f then of_int f else of_int (f + 1)) / 100)"

text \<open>
  The \<open>while\<close> loop of \<open>create_sliding_windows\<close>.  With a step that is not positive the
  cursor never advances and the loop may run forever, so the loop is a partial function:
  \<open>None\<close> is "does not return".
\<close>

partial_function (option) windows_loop ::
  "real \<Rightarrow> int \<Rightarrow> int \<Rightarrow> real \<Rightarrow> window list \<Rightarrow> window list option" where
  "windows_loop video_duration window_size step_size current_start windows =
     (if current_start < video_duration then
        (let e0 = current_start + of_int window_size;
             current_end = (if e0 > video_duration then video_duration else e0)
         in if current_end - current_start < 1 then Some windows
            else
              (let windows' = windows @
                     [\<lparr>w_start = py_round2 current_start, w_end = py_round2 current_end\<rparr>]
               in if current_end = video_duration then Some windows'
                  else windows_loop video_duration window_size step_size
                         (current_start + of_int step_size) windows'))
      else Some windows)"

definition create_sliding_windows :: "real \<Rightarrow> int \<Rightarrow> int \<Rightarrow> window list option" where
  "create_sliding_windows video_duration window_size step_size =
     windows_loop video_duration window_size step_size 0 []"


text \<open>
  The windows the loop appends from an integer cursor on, as a total function.  It is used
  to reason about \<open>windows_loop\<close>, which it equals for every positive step
  (lemma \<open>windows_loop_eq\<close>).
\<close>

function windows_from :: "real \<Rightarrow> int \<Rightarrow> int \<Rightarrow> int \<Rightarrow> window list" where
  "windows_from D W S c =
     (if S \<le> 0 \<or> \<not> of_int c < D then []
      else
        (let e = (if of_int (c + W) > D then D else of_int (c + W))
         in if e - of_int c < 1 then []
            else \<lparr>w_start = py_round2 (of_int c), w_end = py_round2 e\<rparr> #
                 (if e = D then [] else windows_from D W S (c + S))))"
  by pat_completeness auto
termination
proof (relation "measure (\<lambda>(D, W, S, c). nat \<lceil>D - of_int c\<rceil>)")
  show "wf (measure (\<lambda>(D, W, S, c). nat \<lceil>D - real_of_int c\<rceil>))" by simp
next
  fix D :: real and W S c :: int and x :: real
  assume a: "\<not> (S \<le> 0 \<or> \<not> of_int c < D)"
  have "D - of_int (c + S) = (D - of_int c) - of_int S" by simp
  then have "\<lceil>D - of_int (c + S)\<rceil> = \<lceil>D - of_int c\<rceil> - S"
    by (simp only: ceiling_diff_of_int)
  moreover have "0 < \<lceil>D - of_int c\<rceil>" using a by (simp add: less_ceiling_iff)
  ultimately show "((D, W, S, c + S), D, W, S, c) \<in> measure (\<lambda>(D, W, S, c). nat \<lceil>D - of_int c\<rceil>)"
    using a by simp
qed

declare windows_from.simps [simp del]

text \<open>A point in time lies in one of the windows.\<close>

fun covers :: "window list \<Rightarrow> real \<Rightarrow> bool" where
  "covers [] t = False"
| "covers (w # ws) t = ((w_start w \<le> t \<and> t \<le> w_end w) \<or> covers ws t)"


section \<open>Python strings\<close>

text \<open>
  A Python string is modelled as the list of its code points, each a \<open>char\<close>, so the
  strings of the model are those whose code points are below \<open>256\<close>.
  \<open>str.strip()\<close> removes white space at both ends; \<open>sep.join(parts)\<close> puts the separator
  between the parts.

  The code points for which \<open>str.isspace\<close> holds: tab to carriage return, the separators
  \<open>0x1C\<close> to \<open>0x1F\<close>, the space, the next-line character, the no-break space, and the
  Unicode spaces and line separators beyond \<open>0xFF\<close>.
\<close>

definition py_isspace :: "nat \<Rightarrow> bool" where
  "py_isspace n \<longleftrightarrow>
     (0x09 \<le> n \<and> n \<le> 0x0D) \<or> (0x1C \<le> n \<and> n \<le> 0x20) \<or> n = 0x85 \<or> n = 0xA0
     \<or> n = 0x1680 \<or> (0x2000 \<le> n \<and> n \<le> 0x200A) \<or> n = 0x2028 \<or> n = 0x2029
     \<or> n = 0x202F \<or> n = 0x205F \<or> n = 0x3000"

text \<open>
  The same on a \<open>char\<close>: all the code points below \<open>256\<close> that are white space (lemma
  \<open>is_space_code\<close>).
\<close>

definition is_space :: "char \<Rightarrow> bool" where
  "is_space c \<longleftrightarrow> c \<in> set [CHR '' '', CHR 0x09, CHR 0x0A, CHR 0x0B, CHR 0x0C, CHR 0x0D,
                               CHR 0x1C, CHR 0x1D, CHR 0x1E, CHR 0x1F, CHR 0x85, CHR 0xA0]"

definition py_strip :: "string \<Rightarrow> string" where
  "py_strip s = rev (dropWhile is_space (rev (dropWhile is_space s)))"

fun py_join :: "string \<Rightarrow> string list \<Rightarrow> string" where
  "py_join sep [] = []"
| "py_join sep [x] = x"
| "py_join sep (x # y # ys) = x @ sep @ py_join sep (y # ys)"


section \<open>Resilient indexer (app/services/embedding\_service.py)\<close>

datatype py_exn = StoreError | APIError | IndexError

text \<open>Values of the metadata dictionary; the dictionary keeps insertion order.\<close>

datatype mval = MStr string | MNum real

type_synonym metadata = "(string \<times> mval) list"

record row =
  row_id :: string
  row_document :: string
  row_metadata :: metadata

text \<open>What the code prints, as events.\<close>

datatype event =
    ConnectionErrorSaving nat nat
  | FailedToSave string nat
  | SavedChunk nat nat

text \<open>
  Everything the pipeline acts on: the rows of the collection, the number of calls of
  \<open>collection.add\<close> made so far, the seconds spent in \<open>time.sleep\<close>, the printed events,
  and the frames handed to the caption collaborator, in call order.
\<close>

record 'f world =
  rows :: "row list"
  add_calls :: nat
  slept :: nat
  printed :: "event list"
  caption_calls :: "'f list"

text \<open>
  \<open>collection.add\<close> belongs to the ChromaDB client library, not to this repository.  Whether
  a call raises (a connection or embedding failure) is the environment's choice:
  \<open>add_raises n\<close> is the outcome of the \<open>n\<close>-th call.  A call that does not raise stores
  the record unless its id is already in the collection: ChromaDB's \<open>add\<close> ignores a
  record whose id exists (replacing is what its \<open>upsert\<close> does).
\<close>

definition collection_add ::
  "(nat \<Rightarrow> py_exn option) \<Rightarrow> row \<Rightarrow> 'f world \<Rightarrow> py_exn option \<times> 'f world" where
  "collection_add add_raises r w =
     (let w' = w\<lparr>add_calls := Suc (add_calls w)\<rparr>
      in case add_raises (add_calls w) of
           Some e \<Rightarrow> (Some e, w')
         | None \<Rightarrow>
             (None, if row_id r \<in> set (map row_id (rows w)) then w'
                    else w'\<lparr>rows := rows w @ [r]\<rparr>))"

definition max_retries :: nat where
  "max_retries = 3"

text \<open>
  The identity \<open>f"{video_id}_{start_time}_{end_time}"\<close>.  The text of a float is Python's
  \<open>repr\<close>, taken as the parameter \<open>fmt\<close>.
\<close>

definition chunk_id :: "(real \<Rightarrow> string) \<Rightarrow> string \<Rightarrow> real \<Rightarrow> real \<Rightarrow> string" where
  "chunk_id fmt video_id start_time end_time =
     video_id @ ''_'' @ fmt start_time @ ''_'' @ fmt end_time"

text \<open>
  The retry loop \<open>for attempt in range(max_retries)\<close>: \<open>break\<close> after a call that does
  not raise; otherwise print, and sleep two seconds unless this was the last attempt.
\<close>

fun retry_loop ::
  "(nat \<Rightarrow> py_exn option) \<Rightarrow> row \<Rightarrow> nat list \<Rightarrow> 'f world \<Rightarrow> 'f world" where
  "retry_loop add_raises r [] w = w"
| "retry_loop add_raises r (attempt # rest) w =
     (case collection_add add_raises r w of
        (None, w') \<Rightarrow> w'
      | (Some e, w') \<Rightarrow>
          (let w1 = w'\<lparr>printed := printed w' @ [ConnectionErrorSaving (attempt + 1) max_retries]\<rparr>;
               w2 = (if attempt < max_retries - 1 then w1\<lparr>slept := slept w1 + 2\<rparr>
                     else w1\<lparr>printed := printed w1 @ [FailedToSave (row_id r) max_retries]\<rparr>)
           in retry_loop add_raises r rest w2))"

definition add_chunk_to_db ::
  "(nat \<Rightarrow> py_exn option) \<Rightarrow> (real \<Rightarrow> string) \<Rightarrow>
   string \<Rightarrow> real \<Rightarrow> real \<Rightarrow> string \<Rightarrow> metadata option \<Rightarrow> 'f world \<Rightarrow> 'f world" where
  "add_chunk_to_db add_raises fmt video_id start_time end_time text metadata w =
     (let metadata0 = (case metadata of None \<Rightarrow> [] | Some m \<Rightarrow> m);
          metadata1 = AList.update ''video_id'' (MStr video_id) metadata0;
          metadata2 = AList.update ''start_time'' (MNum start_time) metadata1;
          metadata3 = AList.update ''end_time'' (MNum end_time) metadata2;
          cid = chunk_id fmt video_id start_time end_time
      in retry_loop add_raises
           \<lparr>row_id = cid, row_document = text, row_metadata = metadata3\<rparr>
           [0..<max_retries] w)"


section \<open>Scene difference (app/services/vision\_service.py)\<close>

text \<open>
  A grayscale image is a numpy array: its shape and its pixel values (\<open>uint8\<close>), row by
  row.  The result of the difference is a Python float, which may be infinite and, when
  the image has no pixel, not a number.  The squared differences are whole numbers of at
  most \<open>255\<^sup>2\<close>, their sum over \<open>64 * 64\<close> pixels and its quotient by \<open>4096\<close> are exact in
  double precision, so the finite values are reals.
\<close>

record gray_image =
  shape :: "nat \<times> nat"
  pixels :: "nat list"

datatype pyfloat = Finite real | PosInf | NaN

text \<open>The comparison \<open>x > t\<close> of a float with a finite threshold.\<close>

fun float_gt :: "pyfloat \<Rightarrow> real \<Rightarrow> bool" where
  "float_gt (Finite x) t = (t < x)"
| "float_gt PosInf t = True"
| "float_gt NaN t = False"

text \<open>A float that is a number and not negative.\<close>

fun float_nonneg :: "pyfloat \<Rightarrow> bool" where
  "float_nonneg (Finite x) = (0 \<le> x)"
| "float_nonneg PosInf = True"
| "float_nonneg NaN = False"

record segment =
  seg_start :: real
  seg_end :: real
  seg_text :: string

record entities =
  PERSON :: "string list"
  ORG :: "string list"
  GPE :: "string list"

text \<open>
  The collaborators of the pipeline and the library functions it calls, as parameters:
  audio extraction and transcription (\<open>None\<close> on failure), the keyframe at a time stamp,
  \<open>cv2.resize\<close> and \<open>cv2.cvtColor(_, COLOR_BGR2GRAY)\<close>, the caption of a frame (which may
  differ from call to call: the first argument is the number of calls made before), the
  text recognised in a frame, the entities of a text, the outcome of each
  \<open>collection.add\<close>, and the \<open>repr\<close> of a float.
\<close>

record 'f collab =
  extract_audio :: "string \<Rightarrow> string option"
  transcribe_audio :: "string \<Rightarrow> segment list option"
  extract_frame_at_time :: "string \<Rightarrow> real \<Rightarrow> 'f option"
  cv2_resize :: "'f \<Rightarrow> nat \<times> nat \<Rightarrow> 'f"
  cv2_gray :: "'f \<Rightarrow> gray_image"
  generate_visual_caption :: "nat \<Rightarrow> 'f \<Rightarrow> string"
  extract_text_from_frame :: "'f \<Rightarrow> string"
  extract_entities :: "string \<Rightarrow> entities"
  store_raises :: "nat \<Rightarrow> py_exn option"
  float_repr :: "real \<Rightarrow> string"

definition get_frame_difference :: "'f collab \<Rightarrow> 'f option \<Rightarrow> 'f option \<Rightarrow> pyfloat" where
  "get_frame_difference env frame1 frame2 =
     (case frame1 of
        None \<Rightarrow> PosInf
      | Some f1 \<Rightarrow>
          (case frame2 of
             None \<Rightarrow> PosInf
           | Some f2 \<Rightarrow>
               (let target_size = (64, 64);
                    f1_small = cv2_resize env f1 target_size;
                    f2_small = cv2_resize env f2 target_size;
                    gray1 = cv2_gray env f1_small;
                    gray2 = cv2_gray env f2_small;
                    err = sum_list (map2 (\<lambda>a b. (real a - real b)\<^sup>2) (pixels gray1) (pixels gray2));
                    n = fst (shape gray1) * snd (shape gray1)
                in if n = 0 then (if err = 0 then NaN else PosInf)
                   else Finite (err / real n))))"

text \<open>
  What \<open>cv2.resize(frame, (64, 64))\<close> followed by the conversion to gray guarantees: an
  image of \<open>64\<close> by \<open>64\<close> pixels.
\<close>

definition cv2_contract :: "'f collab \<Rightarrow> bool" where
  "cv2_contract env \<longleftrightarrow>
     (\<forall>f. shape (cv2_gray env (cv2_resize env f (64, 64))) = (64, 64)
        \<and> length (pixels (cv2_gray env (cv2_resize env f (64, 64)))) = 64 * 64)"


section \<open>Fusion engine (app/process\_videos.py)\<close>

record video_meta =
  video_id :: string
  filename :: string
  file_path :: string
  duration_seconds :: real

record 'f scene =
  previous_frame :: "'f option"
  previous_caption :: string

definition scene_change_threshold :: real where
  "scene_change_threshold = 50"

text \<open>A. Audio context: the loop over the segments, appending the text of each overlapping one.\<close>

fun chunk_text_parts :: "segment list \<Rightarrow> real \<Rightarrow> real \<Rightarrow> string list \<Rightarrow> string list" where
  "chunk_text_parts [] start_t end_t parts = parts"
| "chunk_text_parts (seg # segs) start_t end_t parts =
     chunk_text_parts segs start_t end_t
       (if seg_start seg < end_t \<and> seg_end seg > start_t then parts @ [seg_text seg] else parts)"

definition audio_text_of :: "segment list \<Rightarrow> real \<Rightarrow> real \<Rightarrow> string" where
  "audio_text_of segments start_t end_t =
     py_strip (py_join '' '' (chunk_text_parts segments start_t end_t []))"

text \<open>The overlap rule in the words of the specification.\<close>

definition overlaps :: "window \<Rightarrow> segment \<Rightarrow> bool" where
  "overlaps win seg \<longleftrightarrow> seg_start seg < w_end win \<and> seg_end seg > w_start win"

text \<open>
  B. Visual context: the keyframe at the midpoint, the scene-change gate, and the text on
  screen.  The result is the caption, the recognised text, and the carried scene state and
  world.
\<close>

definition visual_context ::
  "'f collab \<Rightarrow> string \<Rightarrow> nat \<Rightarrow> real \<Rightarrow> real \<Rightarrow> 'f scene \<Rightarrow> 'f world
   \<Rightarrow> string \<times> string \<times> 'f scene \<times> 'f world" where
  "visual_context env video_path i start_t end_t sc w =
     (let midpoint = (start_t + end_t) / 2;
          current_frame = extract_frame_at_time env video_path midpoint
      in case current_frame of
           None \<Rightarrow> ([], [], sc, w)
         | Some f \<Rightarrow>
             (let diff = get_frame_difference env (previous_frame sc) (Some f);
                  ocr_text = extract_text_from_frame env f
              in if i = 0 \<or> float_gt diff scene_change_threshold then
                   (let visual_caption = generate_visual_caption env (length (caption_calls w)) f
                    in (visual_caption, ocr_text,
                        \<lparr>previous_frame = Some f, previous_caption = visual_caption\<rparr>,
                        w\<lparr>caption_calls := caption_calls w @ [f]\<rparr>))
                 else
                   (previous_caption sc, ocr_text,
                    \<lparr>previous_frame = Some f, previous_caption = previous_caption sc\<rparr>, w)))"

text \<open>D. The text block that is embedded.\<close>

definition final_text_of :: "string \<Rightarrow> string \<Rightarrow> string \<Rightarrow> string" where
  "final_text_of visual_caption ocr_text audio_text =
     ''[Visual Scene]: '' @ visual_caption @ '' [On-Screen Text]: '' @ ocr_text
       @ '' [Audio Transcript]: '' @ audio_text"

text \<open>The body of the loop over the chunks; \<open>n\<close> is \<open>len(chunks)\<close>.\<close>

definition process_chunk ::
  "'f collab \<Rightarrow> video_meta \<Rightarrow> segment list \<Rightarrow> nat \<Rightarrow> nat \<Rightarrow> window \<Rightarrow> 'f scene \<Rightarrow> 'f world
   \<Rightarrow> 'f scene \<times> 'f world" where
  "process_chunk env vm segments n i chunk sc w =
     (let start_t = w_start chunk;
          end_t = w_end chunk;
          audio_text = audio_text_of segments start_t end_t
      in case visual_context env (file_path vm) i start_t end_t sc w of
           (visual_caption, ocr_text, sc', w1) \<Rightarrow>
             (let ents = extract_entities env audio_text;
                  people_str = py_join '', '' (PERSON ents);
                  orgs_str = py_join '', '' (ORG ents);
                  locs_str = py_join '', '' (GPE ents);
                  final_text = final_text_of visual_caption ocr_text audio_text;
                  w2 = add_chunk_to_db (store_raises env) (float_repr env)
                         (video_id vm) start_t end_t final_text
                         (Some [(''filename'', MStr (filename vm)),
                                (''people'', MStr people_str),
                                (''organizations'', MStr orgs_str),
                                (''locations'', MStr locs_str)]) w1
              in (sc', w2\<lparr>printed := printed w2 @ [SavedChunk (i + 1) n]\<rparr>)))"

fun chunks_loop ::
  "'f collab \<Rightarrow> video_meta \<Rightarrow> segment list \<Rightarrow> nat \<Rightarrow> nat \<Rightarrow> window list \<Rightarrow> 'f scene \<Rightarrow> 'f world
   \<Rightarrow> 'f world" where
  "chunks_loop env vm segments n i [] sc w = w"
| "chunks_loop env vm segments n i (chunk # chunks) sc w =
     (case process_chunk env vm segments n i chunk sc w of
        (sc', w') \<Rightarrow> chunks_loop env vm segments n (Suc i) chunks sc' w')"

text \<open>
  \<open>process_single_video\<close>: it returns early when the audio or the transcript is missing or
  empty.  \<open>None\<close> is "does not return".
\<close>

definition process_single_video :: "'f collab \<Rightarrow> video_meta \<Rightarrow> 'f world \<Rightarrow> 'f world option" where
  "process_single_video env vm w =
     (case extract_audio env (file_path vm) of
        None \<Rightarrow> Some w
      | Some audio_path \<Rightarrow>
          if audio_path = [] then Some w
          else
            (case transcribe_audio env audio_path of
               None \<Rightarrow> Some w
             | Some segments \<Rightarrow>
                 if segments = [] then Some w
                 else
                   (case create_sliding_windows (duration_seconds vm) 20 10 of
                      None \<Rightarrow> None
                    | Some chunks \<Rightarrow>
                        Some (chunks_loop env vm segments (length chunks) 0 chunks
                                \<lparr>previous_frame = None,
                                 previous_caption = ''No visual context available.''\<rparr> w))))"


section \<open>Ingestion (app/core/video\_processor.py)\<close>

text \<open>
  The environment of the scan: what \<open>cv2.VideoCapture\<close> reads from a path (\<open>None\<close> when
  it cannot be opened, else the frame rate and the frame count) and the text of the
  \<open>n\<close>-th UUID that \<open>uuid.uuid4()\<close> draws.
\<close>

record ingest_env =
  video_capture :: "string \<Rightarrow> (real \<times> real) option"
  uuid4 :: "nat \<Rightarrow> string"

definition get_video_duration :: "ingest_env \<Rightarrow> string \<Rightarrow> real option" where
  "get_video_duration env video_path =
     (case video_capture env video_path of
        None \<Rightarrow> None
      | Some (fps, frame_count) \<Rightarrow> Some (if fps > 0 then frame_count / fps else 0))"

definition basename :: "string \<Rightarrow> string" where
  "basename p = rev (takeWhile (\<lambda>c. c \<noteq> CHR ''/'') (rev p))"

text \<open>The loop over the files found; \<open>k\<close> counts the UUIDs drawn so far.\<close>

fun ingest_loop :: "ingest_env \<Rightarrow> string list \<Rightarrow> nat \<Rightarrow> video_meta list \<Rightarrow> video_meta list" where
  "ingest_loop env [] k ingested_videos = ingested_videos"
| "ingest_loop env (fp # rest) k ingested_videos =
     (case get_video_duration env fp of
        None \<Rightarrow> ingest_loop env rest k ingested_videos
      | Some duration \<Rightarrow>
          ingest_loop env rest (Suc k)
            (ingested_videos @
               [\<lparr>video_id = take 8 (uuid4 env k), filename = basename fp, file_path = fp,
                 duration_seconds = py_round2 duration\<rparr>]))"

definition ingest_videos :: "ingest_env \<Rightarrow> string list \<Rightarrow> video_meta list" where
  "ingest_videos env video_files = ingest_loop env video_files 0 []"


section \<open>Answer synthesis (app/rag\_search.py)\<close>

definition insufficient_information :: string where
  "insufficient_information = ''I could not find enough information in the videos to answer that.''"

definition error_generating_response :: string where
  "error_generating_response = ''Error generating response.''"

definition error_occurred :: string where
  "error_occurred = ''An error occurred while generating the answer.''"

definition system_prompt :: string where
  "system_prompt =
     ''You are a helpful news assistant. You will be given a user question and ''
     @ ''several context snippets from video transcripts and visual descriptions.'' @ [CHR 0x0A]
     @ ''Your job is to answer the question based ONLY on the provided context.'' @ [CHR 0x0A]
     @ ''If the context does not contain the answer, say '' @ [CHR 0x27]
     @ ''I do not have that information.'' @ [CHR 0x27] @ [CHR 0x0A]
     @ ''Keep the answer concise (2-3 sentences).''"

definition context_text_of :: "string list \<Rightarrow> string" where
  "context_text_of relevant_chunks =
     foldl (\<lambda>context_text chunk. context_text @ ''- '' @ chunk @ [CHR 0x0A]) [] relevant_chunks"

definition user_message_of :: "string \<Rightarrow> string \<Rightarrow> string" where
  "user_message_of context_text user_query =
     [CHR 0x0A] @ ''    Context from videos:'' @ [CHR 0x0A] @ ''    '' @ context_text
     @ [CHR 0x0A, CHR 0x0A] @ ''    Question: '' @ user_query @ [CHR 0x0A] @ ''    ''"

text \<open>
  The language collaborator \<open>chat\<close> gets the system prompt and the user message and raises
  or returns the contents of the choices of its response (a content may be \<open>None\<close>).
  The result of \<open>generate_answer\<close> is what the caller receives, \<open>Inl\<close> for an exception
  that reaches it, and the list of the requests sent.
\<close>

definition generate_answer ::
  "(string \<Rightarrow> string \<Rightarrow> py_exn + string option list) \<Rightarrow> string \<Rightarrow> string list
   \<Rightarrow> (py_exn + string) \<times> (string \<times> string) list" where
  "generate_answer chat user_query relevant_chunks =
     (if relevant_chunks = [] then (Inr insufficient_information, [])
      else
        (let context_text = context_text_of relevant_chunks;
             user_message = user_message_of context_text user_query;
             tried =
               (case chat system_prompt user_message of
                  Inl e \<Rightarrow> Inl e
                | Inr choices \<Rightarrow>
                    (case choices of
                       [] \<Rightarrow> Inl IndexError
                     | answer # _ \<Rightarrow>
                         Inr (case answer of
                                None \<Rightarrow> error_generating_response
                              | Some a \<Rightarrow> if a = [] then error_generating_response else a)))
         in (case tried of
               Inl e \<Rightarrow> Inr error_occurred
             | Inr s \<Rightarrow> Inr s,
             [(system_prompt, user_message)])))"


section \<open>Concrete environments\<close>

text \<open>
  The text of a float with at most two decimals, as \<open>repr\<close> prints it: the integer part, a
  point, and one or two decimals (\<open>20.0\<close>, \<open>25.5\<close>, \<open>25.37\<close>).  The window bounds are of
  this kind, being results of \<open>round(x, 2)\<close>.
\<close>

definition digit :: "nat \<Rightarrow> char" where
  "digit n = ''0123456789'' ! n"

fun string_of_nat :: "nat \<Rightarrow> string" where
  "string_of_nat n = (if n < 10 then [digit n] else string_of_nat (n div 10) @ [digit (n mod 10)])"

declare string_of_nat.simps [simp del]

definition repr2 :: "real \<Rightarrow> string" where
  "repr2 x =
     (let c = nat \<lfloor>\<bar>x\<bar> * 100 + 1 / 2\<rfloor>;
          ip = c div 100;
          fp = c mod 100
      in (if x < 0 then ''-'' else []) @ string_of_nat ip @ ''.''
         @ (if fp mod 10 = 0 then [digit (fp div 10)] else [digit (fp div 10), digit (fp mod 10)]))"

definition empty_world :: "nat world" where
  "empty_world = \<lparr>rows = [], add_calls = 0, slept = 0, printed = [], caption_calls = []\<rparr>"

text \<open>Stores: one that never raises, one that raises twice and then works, one that raises
  on its first three calls.\<close>

definition never_raises :: "nat \<Rightarrow> py_exn option" where
  "never_raises n = None"

definition raises_twice :: "nat \<Rightarrow> py_exn option" where
  "raises_twice n = (if n < 2 then Some StoreError else None)"

definition raises_thrice :: "nat \<Rightarrow> py_exn option" where
  "raises_thrice n = (if n < 3 then Some StoreError else None)"

text \<open>A store whose first call works and whose next three calls raise.\<close>

definition raises_later :: "nat \<Rightarrow> py_exn option" where
  "raises_later n = (if 1 \<le> n \<and> n \<le> 3 then Some StoreError else None)"

text \<open>
  A video of which every keyframe is the same frame (frames are numbers here; the gray
  image of frame \<open>f\<close> has the value \<open>f\<close> in each of its \<open>64 * 64\<close> pixels).
\<close>

definition still_video :: "nat collab" where
  "still_video =
     \<lparr>extract_audio = (\<lambda>p. Some ''data/temp_audio/news.mp3''),
      transcribe_audio =
        (\<lambda>p. Some [\<lparr>seg_start = 0, seg_end = 4, seg_text = ''Good evening.''\<rparr>,
                    \<lparr>seg_start = 12, seg_end = 15, seg_text = ''The talks resumed today.''\<rparr>]),
      extract_frame_at_time = (\<lambda>p t. Some 7),
      cv2_resize = (\<lambda>f sz. f),
      cv2_gray = (\<lambda>f. \<lparr>shape = (64, 64), pixels = replicate (64 * 64) f\<rparr>),
      generate_visual_caption = (\<lambda>k f. ''A news anchor in a studio.''),
      extract_text_from_frame = (\<lambda>f. ''BREAKING NEWS''),
      extract_entities = (\<lambda>t. \<lparr>PERSON = [], ORG = [], GPE = []\<rparr>),
      store_raises = never_raises,
      float_repr = repr2\<rparr>"

text \<open>A video without readable keyframes whose only words are spoken after second 30.\<close>

definition blank_video :: "nat collab" where
  "blank_video =
     \<lparr>extract_audio = (\<lambda>p. Some ''data/temp_audio/news.mp3''),
      transcribe_audio =
        (\<lambda>p. Some [\<lparr>seg_start = 30, seg_end = 31, seg_text = ''Good night.''\<rparr>]),
      extract_frame_at_time = (\<lambda>p t. None),
      cv2_resize = (\<lambda>f sz. f),
      cv2_gray = (\<lambda>f. \<lparr>shape = (64, 64), pixels = replicate (64 * 64) f\<rparr>),
      generate_visual_caption = (\<lambda>k f. ''A news anchor in a studio.''),
      extract_text_from_frame = (\<lambda>f. ''BREAKING NEWS''),
      extract_entities = (\<lambda>t. \<lparr>PERSON = [], ORG = [], GPE = []\<rparr>),
      store_raises = never_raises,
      float_repr = repr2\<rparr>"

definition news_meta :: video_meta where
  "news_meta =
     \<lparr>video_id = ''1b9d6bcd'', filename = ''news.mp4'', file_path = ''data/videos/news.mp4'',
      duration_seconds = 25\<rparr>"

definition short_meta :: video_meta where
  "short_meta =
     \<lparr>video_id = ''1b9d6bcd'', filename = ''news.mp4'', file_path = ''data/videos/news.mp4'',
      duration_seconds = 5\<rparr>"

text \<open>The same video with a store that raises on its first three calls.\<close>

definition flaky_video :: "nat collab" where
  "flaky_video = still_video\<lparr>store_raises := raises_thrice\<rparr>"

text \<open>The scene state at the start of a video.\<close>

definition scene0 :: "nat scene" where
  "scene0 = \<lparr>previous_frame = None, previous_caption = ''No visual context available.''\<rparr>"

text \<open>Two ingestion runs over the same readable file that draw different UUIDs.\<close>

definition first_run :: ingest_env where
  "first_run =
     \<lparr>video_capture = (\<lambda>p. Some (25, 625)),
      uuid4 = (\<lambda>k. ''1b9d6bcd-bbfd-4b2d-9b5d-ab8dfbbd4bed'')\<rparr>"

definition second_run :: ingest_env where
  "second_run =
     \<lparr>video_capture = (\<lambda>p. Some (25, 625)),
      uuid4 = (\<lambda>k. ''6ec0bd7f-11c0-43da-975e-2a8ad9ebae0b'')\<rparr>"

text \<open>A run whose UUID differs from that of the first run after its first eight characters.\<close>

definition replay_run :: ingest_env where
  "replay_run =
     \<lparr>video_capture = (\<lambda>p. Some (25, 625)),
      uuid4 = (\<lambda>k. ''1b9d6bcd-58cc-4372-a567-0e02b2c3d479'')\<rparr>"

text \<open>Language collaborators: one that answers, one that raises.\<close>

definition chat_answers :: "string \<Rightarrow> string \<Rightarrow> py_exn + string option list" where
  "chat_answers sys_msg user_msg = Inr [Some ''The delegation met in Yevlakh today.'']"

definition chat_raises :: "string \<Rightarrow> string \<Rightarrow> py_exn + string option list" where
  "chat_raises sys_msg user_msg = Inl APIError"


section \<open>Properties of the windowing engine\<close>

lemma py_round2_of_int: "py_round2 (of_int n) = of_int n"
  by (simp add: py_round2_def Let_def)

lemma py_round2_ge_int: "of_int n \<le> x \<Longrightarrow> of_int n \<le> py_round2 x"
proof -
  assume a: "of_int n \<le> x"
  have "of_int (n * 100) \<le> x * 100" using a by simp
  then have "n * 100 \<le> \<lfloor>x * 100\<rfloor>" by (simp only: le_floor_iff)
  then have "(of_int n :: real) * 100 \<le> of_int \<lfloor>x * 100\<rfloor>"
    by (metis of_int_le_iff of_int_mult of_int_numeral)
  then show ?thesis
    by (simp add: py_round2_def Let_def)
qed

lemma py_round2_le_int: "x \<le> of_int n \<Longrightarrow> py_round2 x \<le> of_int n"
proof -
  assume a: "x \<le> of_int n"
  show ?thesis
  proof (cases "x * 100 = of_int (n * 100)")
    case True
    then have "x = of_int n" by simp
    then show ?thesis by (simp add: py_round2_of_int)
  next
    case False
    then have "x * 100 < of_int (n * 100)" using a by simp
    then have "\<lfloor>x * 100\<rfloor> < n * 100" by (simp only: floor_less_iff)
    then have "\<lfloor>x * 100\<rfloor> + 1 \<le> n * 100" by simp
    then have "of_int (\<lfloor>x * 100\<rfloor> + 1) \<le> (of_int (n * 100) :: real)"
      by (simp only: of_int_le_iff)
    then have "of_int \<lfloor>x * 100\<rfloor> + 1 \<le> (of_int n :: real) * 100" by simp
    then show ?thesis
      by (simp add: py_round2_def Let_def)
  qed
qed

lemma py_round2_close: "x - 1 / 100 < py_round2 x"
proof -
  show ?thesis
    by (auto simp add: py_round2_def Let_def; linarith)
qed

lemma windows_loop_eq:
  "0 < S \<Longrightarrow> windows_loop D W S (of_int c) acc = Some (acc @ windows_from D W S c)"
proof (induction D W S c arbitrary: acc rule: windows_from.induct)
  case (1 D W S c)
  show ?case
    apply (subst windows_loop.simps)
    apply (subst windows_from.simps)
    using 1 apply (auto simp add: Let_def py_round2_of_int)
    done
qed

lemma py_round2_of_int_add: "py_round2 (of_int a + of_int b) = of_int a + of_int b"
  using py_round2_of_int [of "a + b"] by simp

lemma windows_from_Cons:
  assumes "windows_from D W S c = w # r"
  shows "0 < S \<and> of_int c < D \<and> w_start w = of_int c
     \<and> w_end w = py_round2 (if of_int (c + W) > D then D else of_int (c + W))
     \<and> 1 \<le> (if of_int (c + W) > D then D else of_int (c + W)) - of_int c
     \<and> r = (if of_int (c + W) \<ge> D then [] else windows_from D W S (c + S))"
  using assms
  by (subst (asm) windows_from.simps) (auto simp: Let_def py_round2_of_int split: if_splits)

lemma windows_from_starts:
  "Suc i < length (windows_from D W S c) \<Longrightarrow>
   w_start (windows_from D W S c ! Suc i) = w_start (windows_from D W S c ! i) + of_int S"
proof (induction D W S c arbitrary: i rule: windows_from.induct)
  case (1 D W S c)
  then obtain w r where wr: "windows_from D W S c = w # r"
    by (cases "windows_from D W S c") auto
  note C = windows_from_Cons [OF wr]
  from 1(2) wr have rne: "r \<noteq> []" by auto
  with C have r: "r = windows_from D W S (c + S)" and nc: "\<not> of_int (c + W) \<ge> D"
    by (auto split: if_splits)
  obtain w' r' where r': "windows_from D W S (c + S) = w' # r'"
    using rne r by (cases "windows_from D W S (c + S)") auto
  have st: "w_start w' = of_int (c + S)" using windows_from_Cons [OF r'] by simp
  show ?case
  proof (cases i)
    case 0
    then show ?thesis using wr r r' st C by simp
  next
    case (Suc j)
    have "Suc j < length (windows_from D W S (c + S))" using 1(2) wr r Suc by simp
    moreover have "\<not> (S \<le> 0 \<or> \<not> of_int c < D)" using C by simp
    moreover have "\<not> (if of_int (c + W) > D then D else of_int (c + W)) - of_int c < 1" using C by simp
    moreover have "(if of_int (c + W) > D then D else of_int (c + W)) \<noteq> D" using nc by auto
    ultimately have "w_start (windows_from D W S (c + S) ! Suc j)
        = w_start (windows_from D W S (c + S) ! j) + of_int S"
      using 1(1) by blast
    then show ?thesis using wr r Suc by simp
  qed
qed

lemma windows_from_length:
  "0 < W \<Longrightarrow> w \<in> set (windows_from D W S c) \<Longrightarrow>
   1 \<le> w_end w - w_start w \<and> w_end w - w_start w \<le> of_int W"
proof (induction D W S c rule: windows_from.induct)
  case (1 D W S c)
  then obtain v r where wr: "windows_from D W S c = v # r"
    by (cases "windows_from D W S c") auto
  note C = windows_from_Cons [OF wr]
  let ?e = "if of_int (c + W) > D then D else of_int (c + W)"
  show ?case
  proof (cases "w = v")
    case True
    have "of_int (c + 1) \<le> ?e" using C by auto
    then have lo: "of_int (c + 1) \<le> py_round2 ?e" by (rule py_round2_ge_int)
    have "?e \<le> of_int (c + W)" by auto
    then have hi: "py_round2 ?e \<le> of_int (c + W)" by (rule py_round2_le_int)
    show ?thesis using True C lo hi by simp
  next
    case False
    with 1(3) wr have wr': "w \<in> set r" by auto
    then have rne: "r \<noteq> []" by auto
    with C have r: "r = windows_from D W S (c + S)" and nc: "\<not> of_int (c + W) \<ge> D"
      by (auto split: if_splits)
    have "\<not> (S \<le> 0 \<or> \<not> of_int c < D)" using C by simp
    moreover have "\<not> ?e - of_int c < 1" using C by simp
    moreover have "?e \<noteq> D" using nc by auto
    ultimately show ?thesis using 1(1) 1(2) wr' r by blast
  qed
qed

lemma windows_from_nogap:
  "S \<le> W \<Longrightarrow> Suc i < length (windows_from D W S c) \<Longrightarrow>
   w_start (windows_from D W S c ! Suc i) \<le> w_end (windows_from D W S c ! i)"
proof (induction D W S c arbitrary: i rule: windows_from.induct)
  case (1 D W S c)
  then obtain w r where wr: "windows_from D W S c = w # r"
    by (cases "windows_from D W S c") auto
  note C = windows_from_Cons [OF wr]
  let ?e = "if of_int (c + W) > D then D else of_int (c + W)"
  from 1(3) wr have rne: "r \<noteq> []" by auto
  with C have r: "r = windows_from D W S (c + S)" and nc: "\<not> of_int (c + W) \<ge> D"
    by (auto split: if_splits)
  obtain w' r' where r': "windows_from D W S (c + S) = w' # r'"
    using rne r by (cases "windows_from D W S (c + S)") auto
  have st: "w_start w' = of_int (c + S)" using windows_from_Cons [OF r'] by simp
  have en: "w_end w = of_int (c + W)" using C nc by (simp add: py_round2_of_int_add)
  show ?case
  proof (cases i)
    case 0
    then show ?thesis using wr r r' st en 1(2) by simp
  next
    case (Suc j)
    have "Suc j < length (windows_from D W S (c + S))" using 1(3) wr r Suc by simp
    moreover have "\<not> (S \<le> 0 \<or> \<not> of_int c < D)" using C by simp
    moreover have "\<not> ?e - of_int c < 1" using C by simp
    moreover have "?e \<noteq> D" using nc by auto
    ultimately have "w_start (windows_from D W S (c + S) ! Suc j)
        \<le> w_end (windows_from D W S (c + S) ! j)"
      using 1(1) 1(2) by blast
    then show ?thesis using wr r Suc by simp
  qed
qed

lemma windows_from_Nil_iff:
  "0 < S \<Longrightarrow> 0 < W \<Longrightarrow> windows_from D W S c = [] \<longleftrightarrow> D - of_int c < 1"
  by (subst windows_from.simps) (auto simp: Let_def)

lemma windows_from_last:
  "0 < W \<Longrightarrow> S \<le> W \<Longrightarrow> windows_from D W S c \<noteq> [] \<Longrightarrow>
   D - 1 < w_end (last (windows_from D W S c))"
proof (induction D W S c rule: windows_from.induct)
  case (1 D W S c)
  then obtain w r where wr: "windows_from D W S c = w # r"
    by (cases "windows_from D W S c") auto
  note C = windows_from_Cons [OF wr]
  let ?e = "if of_int (c + W) > D then D else of_int (c + W)"
  show ?case
  proof (cases "r = []")
    case True
    then have rr: "of_int (c + W) \<ge> D \<or> windows_from D W S (c + S) = []"
      using C by (auto split: if_splits)
    have "D - 1 < w_end w"
    proof (cases "of_int (c + W) \<ge> D")
      case True
      then have "?e = D" by auto
      then have "w_end w = py_round2 D" using C by simp
      then show ?thesis using py_round2_close [of D] by simp
    next
      case False
      with rr have "windows_from D W S (c + S) = []" by simp
      then have "D - of_int (c + S) < 1"
        using windows_from_Nil_iff [of S W D "c + S"] C 1(2) by simp
      moreover have "w_end w = of_int (c + W)" using C False by (simp add: py_round2_of_int_add)
      moreover have "(of_int S :: real) \<le> of_int W" using 1(3) by simp
      ultimately show ?thesis by simp
    qed
    then show ?thesis using wr True by simp
  next
    case False
    with C have r: "r = windows_from D W S (c + S)" and nc: "\<not> of_int (c + W) \<ge> D"
      by (auto split: if_splits)
    have "\<not> (S \<le> 0 \<or> \<not> of_int c < D)" using C by simp
    moreover have "\<not> ?e - of_int c < 1" using C by simp
    moreover have "?e \<noteq> D" using nc by auto
    ultimately have "D - 1 < w_end (last (windows_from D W S (c + S)))"
      using 1(1) 1(2) 1(3) False r by blast
    then show ?thesis using wr r False by simp
  qed
qed

lemma windows_from_exact:
  "0 < S \<Longrightarrow> S < W \<Longrightarrow> 1 \<le> D - of_int c \<Longrightarrow>
   windows_from D W S c \<noteq> [] \<and> w_end (last (windows_from D W S c)) = py_round2 D"
proof (induction D W S c rule: windows_from.induct)
  case (1 D W S c)
  have W: "0 < W" using 1 by simp
  have ne: "windows_from D W S c \<noteq> []"
    using windows_from_Nil_iff [OF 1(2) W, of D c] 1(4) by simp
  then obtain w r where wr: "windows_from D W S c = w # r"
    by (cases "windows_from D W S c") auto
  note C = windows_from_Cons [OF wr]
  let ?e = "if of_int (c + W) > D then D else of_int (c + W)"
  show ?case
  proof (cases "of_int (c + W) \<ge> D")
    case True
    then have "?e = D" by auto
    then have "w_end w = py_round2 D" using C by simp
    moreover have "r = []" using C True by simp
    ultimately show ?thesis using wr by simp
  next
    case False
    then have r: "r = windows_from D W S (c + S)" using C by simp
    have "S + 1 \<le> W" using 1(3) by simp
    then have "(of_int S :: real) + 1 \<le> of_int W" by (metis of_int_le_iff of_int_add of_int_1)
    then have inv: "1 \<le> D - of_int (c + S)" using False by simp
    have "\<not> (S \<le> 0 \<or> \<not> of_int c < D)" using C by simp
    moreover have "\<not> ?e - of_int c < 1" using C by simp
    moreover have "?e \<noteq> D" using False by auto
    ultimately have "windows_from D W S (c + S) \<noteq> [] \<and>
        w_end (last (windows_from D W S (c + S))) = py_round2 D"
      using 1(1) 1(2) 1(3) inv by blast
    then show ?thesis using wr r by simp
  qed
qed

lemma covers_chain:
  "ws \<noteq> [] \<Longrightarrow> (\<And>i. Suc i < length ws \<Longrightarrow> w_start (ws ! Suc i) \<le> w_end (ws ! i)) \<Longrightarrow>
   w_start (hd ws) \<le> t \<Longrightarrow> t \<le> w_end (last ws) \<Longrightarrow> covers ws t"
proof (induction ws)
  case Nil
  then show ?case by simp
next
  case (Cons w ws)
  show ?case
  proof (cases "t \<le> w_end w")
    case True
    then show ?thesis using Cons.prems by simp
  next
    case False
    then have ne: "ws \<noteq> []" using Cons.prems by auto
    have g: "\<And>i. Suc i < length ws \<Longrightarrow> w_start (ws ! Suc i) \<le> w_end (ws ! i)"
      using Cons.prems(2) [of "Suc i" for i] by simp
    have "w_start (ws ! 0) \<le> w_end w" using Cons.prems(2) [of 0] ne by simp
    then have "w_start (hd ws) \<le> t" using False ne by (simp add: hd_conv_nth)
    moreover have "t \<le> w_end (last ws)" using Cons.prems(4) ne by simp
    ultimately have "covers ws t" using Cons.IH [OF ne g] by blast
    then show ?thesis by simp
  qed
qed


lemma create_sliding_windows_eq:
  "0 < S \<Longrightarrow> create_sliding_windows D W S = Some (windows_from D W S 0)"
  using windows_loop_eq [of S D W 0 "[]"] by (simp add: create_sliding_windows_def)

text \<open>
  C3 (as the code has it).  For a duration of 25 seconds, a window size of 20 and a step
  of 10, \<open>create_sliding_windows\<close> returns exactly the two windows \<open>[0, 20]\<close> and
  \<open>[10, 25]\<close>, in that order: the second window starts one step after the first and is
  clipped to the duration.
\<close>

theorem windows_25_20_10:
  "create_sliding_windows 25 20 10 =
     Some [\<lparr>w_start = 0, w_end = 20\<rparr>, \<lparr>w_start = 10, w_end = 25\<rparr>]"
  unfolding create_sliding_windows_def
  apply (subst windows_loop.simps)
  apply (simp add: Let_def py_round2_def)
  apply (subst windows_loop.simps)
  apply (simp add: Let_def py_round2_def)
  done

text \<open>
  C3 as stated, with the windows \<open>[0, 20]\<close> and \<open>[20, 25]\<close>, does not hold: the cursor
  advances by the step, not by the window size.
\<close>

theorem windows_25_20_10_counterexample:
  "create_sliding_windows 25 20 10 \<noteq>
     Some [\<lparr>w_start = 0, w_end = 20\<rparr>, \<lparr>w_start = 20, w_end = 25\<rparr>]"
  unfolding create_sliding_windows_def
  apply (subst windows_loop.simps)
  apply (simp add: Let_def py_round2_def)
  apply (subst windows_loop.simps)
  apply (simp add: Let_def py_round2_def)
  done

text \<open>
  C4 (as the code has it).  For every duration \<open>D\<close> and all integers \<open>W > 0\<close> and \<open>S > 0\<close>
  the function returns; the windows are strictly increasing in start time; each
  consecutive window starts exactly \<open>S\<close> after its predecessor; every window is at least
  one second and at most \<open>W\<close> long; for \<open>D \<le> 0\<close> the result is empty, and it is empty
  exactly when \<open>D < 1\<close>.  The windows cover \<open>[0, D]\<close> only up to the one-second floor and
  only without gaps in the step: when \<open>S \<le> W\<close> and the result is not empty, the first
  window starts at \<open>0\<close>, every point from \<open>0\<close> to the end of the last window lies in
  some window, and that end is less than one second short of \<open>D\<close>; when \<open>S < W\<close> and
  \<open>1 \<le> D\<close> the last window ends at \<open>round(D, 2)\<close>.
\<close>

theorem windows_properties:
  assumes W: "0 < W" and S: "0 < S"
  shows "\<exists>ws. create_sliding_windows D W S = Some ws
     \<and> sorted_wrt (\<lambda>a b. w_start a < w_start b) ws
     \<and> (\<forall>i. Suc i < length ws \<longrightarrow> w_start (ws ! Suc i) = w_start (ws ! i) + of_int S)
     \<and> (\<forall>w \<in> set ws. 1 \<le> w_end w - w_start w \<and> w_end w - w_start w \<le> of_int W)
     \<and> (D \<le> 0 \<longrightarrow> ws = [])
     \<and> (ws = [] \<longleftrightarrow> D < 1)
     \<and> (S \<le> W \<longrightarrow> ws \<noteq> [] \<longrightarrow>
          w_start (hd ws) = 0 \<and> D - 1 < w_end (last ws)
          \<and> (\<forall>t. 0 \<le> t \<and> t \<le> w_end (last ws) \<longrightarrow> covers ws t))
     \<and> (S < W \<longrightarrow> 1 \<le> D \<longrightarrow> w_end (last ws) = py_round2 D)"
proof -
  let ?ws = "windows_from D W S 0"
  have eq: "create_sliding_windows D W S = Some ?ws"
    using S by (rule create_sliding_windows_eq)
  have step: "\<forall>i. Suc i < length ?ws \<longrightarrow> w_start (?ws ! Suc i) = w_start (?ws ! i) + of_int S"
    using windows_from_starts by blast
  have "\<forall>i. Suc i < length ?ws \<longrightarrow> w_start (?ws ! i) < w_start (?ws ! Suc i)"
    using step S by simp
  moreover have "transp (\<lambda>a b :: window. w_start a < w_start b)"
    by (rule transpI) simp
  ultimately have sorted: "sorted_wrt (\<lambda>a b. w_start a < w_start b) ?ws"
    by (simp add: sorted_wrt_iff_nth_Suc_transp)
  have len: "\<forall>w \<in> set ?ws. 1 \<le> w_end w - w_start w \<and> w_end w - w_start w \<le> of_int W"
    using windows_from_length [OF W] by blast
  have nil: "?ws = [] \<longleftrightarrow> D < 1"
    using windows_from_Nil_iff [OF S W, of D 0] by simp
  have neg: "D \<le> 0 \<longrightarrow> ?ws = []" using nil by simp
  have cov: "S \<le> W \<longrightarrow> ?ws \<noteq> [] \<longrightarrow>
          w_start (hd ?ws) = 0 \<and> D - 1 < w_end (last ?ws)
          \<and> (\<forall>t. 0 \<le> t \<and> t \<le> w_end (last ?ws) \<longrightarrow> covers ?ws t)"
  proof (intro impI)
    assume sw: "S \<le> W" and ne: "?ws \<noteq> []"
    obtain w r where wr: "?ws = w # r" using ne by (cases ?ws) auto
    have h: "w_start (hd ?ws) = 0" using windows_from_Cons [OF wr] wr by simp
    have l: "D - 1 < w_end (last ?ws)" using windows_from_last [OF W sw ne] .
    have g: "\<And>i. Suc i < length ?ws \<Longrightarrow> w_start (?ws ! Suc i) \<le> w_end (?ws ! i)"
      using windows_from_nogap [OF sw] by blast
    have "\<forall>t. 0 \<le> t \<and> t \<le> w_end (last ?ws) \<longrightarrow> covers ?ws t"
      using covers_chain [OF ne g] h by simp
    then show "w_start (hd ?ws) = 0 \<and> D - 1 < w_end (last ?ws)
          \<and> (\<forall>t. 0 \<le> t \<and> t \<le> w_end (last ?ws) \<longrightarrow> covers ?ws t)"
      using h l by blast
  qed
  have ex: "S < W \<longrightarrow> 1 \<le> D \<longrightarrow> w_end (last ?ws) = py_round2 D"
    using windows_from_exact [OF S, of W D 0] by simp
  show ?thesis using eq sorted step len neg nil cov ex by blast
qed

theorem windows_properties_witness:
  "(0 :: int) < 20 \<and> (0 :: int) < 10 \<and> (10 :: int) < 20 \<and> (1 :: real) \<le> 25
   \<and> create_sliding_windows 25 20 10
        = Some [\<lparr>w_start = 0, w_end = 20\<rparr>, \<lparr>w_start = 10, w_end = 25\<rparr>]
   \<and> (\<exists>ws. create_sliding_windows 25 20 10 = Some ws
        \<and> Suc 0 < length ws \<and> w_start (ws ! Suc 0) = w_start (ws ! 0) + 10
        \<and> ws \<noteq> [] \<and> w_start (hd ws) = 0 \<and> w_end (last ws) = py_round2 25
        \<and> (\<forall>w \<in> set ws. 1 \<le> w_end w - w_start w \<and> w_end w - w_start w \<le> 20)
        \<and> covers ws 22)"
proof -
  have c: "create_sliding_windows 25 20 10
        = Some [\<lparr>w_start = 0, w_end = 20\<rparr>, \<lparr>w_start = 10, w_end = 25\<rparr>]"
    unfolding create_sliding_windows_def
    apply (subst windows_loop.simps)
    apply (simp add: Let_def py_round2_def)
    apply (subst windows_loop.simps)
    apply (simp add: Let_def py_round2_def)
    done
  obtain ws where ws: "create_sliding_windows 25 20 10 = Some ws"
     and step: "\<forall>i. Suc i < length ws \<longrightarrow> w_start (ws ! Suc i) = w_start (ws ! i) + of_int 10"
     and len: "\<forall>w \<in> set ws. 1 \<le> w_end w - w_start w \<and> w_end w - w_start w \<le> of_int 20"
     and cov: "(10 :: int) \<le> 20 \<longrightarrow> ws \<noteq> [] \<longrightarrow>
          w_start (hd ws) = 0 \<and> 25 - 1 < w_end (last ws)
          \<and> (\<forall>t. 0 \<le> t \<and> t \<le> w_end (last ws) \<longrightarrow> covers ws t)"
     and ex: "(10 :: int) < 20 \<longrightarrow> (1 :: real) \<le> 25 \<longrightarrow> w_end (last ws) = py_round2 25"
    using windows_properties [of 20 10 25] by auto
  have w: "ws = [\<lparr>w_start = 0, w_end = 20\<rparr>, \<lparr>w_start = 10, w_end = 25\<rparr>]"
    using ws c by simp
  have s1: "Suc 0 < length ws" using w by simp
  have "w_start (ws ! Suc 0) = w_start (ws ! 0) + 10" using step s1 by fastforce
  moreover have ne: "ws \<noteq> []" using w by simp
  moreover have "w_start (hd ws) = 0" using cov ne by simp
  moreover have "w_end (last ws) = py_round2 25" using ex by simp
  moreover have "covers ws 22" using cov ne w by simp
  moreover have "\<forall>w \<in> set ws. 1 \<le> w_end w - w_start w \<and> w_end w - w_start w \<le> 20"
    using len by simp
  ultimately show ?thesis using c ws s1 by auto
qed

text \<open>
  C4 as stated does not hold in its coverage part.  Half a second of video with the
  pipeline's window size and step gives no window at all, so the point \<open>1/4\<close> of
  \<open>[0, 1/2]\<close> is in no window; and with \<open>D = 10.5\<close>, \<open>W = S = 10\<close> the remainder of half a
  second is dropped, so \<open>10.25\<close> is in no window.
\<close>

theorem windows_cover_counterexample:
  "create_sliding_windows (1 / 2) 20 10 = Some []
   \<and> (0 :: real) \<le> 1 / 4 \<and> (1 / 4 :: real) \<le> 1 / 2 \<and> \<not> covers [] (1 / 4)
   \<and> create_sliding_windows (21 / 2) 10 10 = Some [\<lparr>w_start = 0, w_end = 10\<rparr>]
   \<and> (0 :: real) \<le> 41 / 4 \<and> (41 / 4 :: real) \<le> 21 / 2
   \<and> \<not> covers [\<lparr>w_start = 0, w_end = 10\<rparr>] (41 / 4)"
proof -
  have a: "create_sliding_windows (1 / 2) 20 10 = Some []"
    unfolding create_sliding_windows_def
    by (subst windows_loop.simps) (simp add: Let_def)
  have b: "create_sliding_windows (21 / 2) 10 10 = Some [\<lparr>w_start = 0, w_end = 10\<rparr>]"
    unfolding create_sliding_windows_def
    apply (subst windows_loop.simps)
    apply (simp add: Let_def py_round2_def)
    apply (subst windows_loop.simps)
    apply (simp add: Let_def py_round2_def)
    done
  show ?thesis using a b by simp
qed


section \<open>Properties of the fusion engine: audio alignment\<close>

lemma char_eq_code: "c = d \<longleftrightarrow> (of_char c :: nat) = of_char d"
  by simp

lemma py_isspace_small:
  "n < 256 \<Longrightarrow>
   py_isspace n \<longleftrightarrow> n \<in> {32, 9, 10, 11, 12, 13, 28, 29, 30, 31, 133, 160}"
  unfolding py_isspace_def by auto

lemma is_space_code: "is_space ch \<longleftrightarrow> py_isspace (of_char ch)"
proof -
  have "is_space ch \<longleftrightarrow> (of_char ch :: nat) \<in> {32, 9, 10, 11, 12, 13, 28, 29, 30, 31, 133, 160}"
    unfolding is_space_def by (simp add: char_eq_code [of ch])
  also have "\<dots> \<longleftrightarrow> py_isspace (of_char ch)"
    by (rule py_isspace_small [symmetric]) (rule nat_of_char_less_256)
  finally show ?thesis .
qed

lemma chunk_text_parts_filter:
  "chunk_text_parts segs (w_start win) (w_end win) parts
     = parts @ map seg_text (filter (overlaps win) segs)"
  by (induction segs arbitrary: parts) (simp_all add: overlaps_def)

text \<open>
  C5.  The texts collected for a window are those of the segments that overlap it, that
  is, with \<open>segment.start < window.end\<close> and \<open>segment.end > window.start\<close>, in segment
  order; the audio section is these texts joined by a space and trimmed of the
  characters for which \<open>str.isspace\<close> holds, the no-break space and the next-line character
  included.  A segment \<open>[5, 10]\<close> is not
  collected for the window \<open>[0, 5]\<close> and is collected for the window \<open>[4, 6]\<close>; two
  segments that overlap the window \<open>[0, 20]\<close> give both texts, in order, and a third one
  that only touches its end gives nothing.
\<close>

theorem audio_alignment:
  "chunk_text_parts segments (w_start win) (w_end win) []
     = map seg_text (filter (overlaps win) segments)
   \<and> audio_text_of segments (w_start win) (w_end win)
     = py_strip (py_join '' '' (map seg_text (filter (overlaps win) segments)))
   \<and> (chunk_text_parts [seg] (w_start win) (w_end win) [] = [seg_text seg])
       = (seg_start seg < w_end win \<and> seg_end seg > w_start win)
   \<and> \<not> overlaps \<lparr>w_start = 0, w_end = 5\<rparr> \<lparr>seg_start = 5, seg_end = 10, seg_text = t\<rparr>
   \<and> overlaps \<lparr>w_start = 4, w_end = 6\<rparr> \<lparr>seg_start = 5, seg_end = 10, seg_text = t\<rparr>
   \<and> audio_text_of [\<lparr>seg_start = 5, seg_end = 10, seg_text = '' talks resumed ''\<rparr>] 0 5 = []
   \<and> audio_text_of [\<lparr>seg_start = 5, seg_end = 10, seg_text = '' talks resumed ''\<rparr>] 4 6
       = ''talks resumed''
   \<and> audio_text_of
         [\<lparr>seg_start = 0, seg_end = 4, seg_text = ''Good evening.''\<rparr>,
          \<lparr>seg_start = 12, seg_end = 15, seg_text = ''The talks resumed today.''\<rparr>,
          \<lparr>seg_start = 20, seg_end = 24, seg_text = ''Good night.''\<rparr>] 0 20
       = ''Good evening. The talks resumed today.''
   \<and> audio_text_of
         [\<lparr>seg_start = 5, seg_end = 10, seg_text = [CHR 0xA0] @ ''hello'' @ [CHR 0x85, CHR 0x09]\<rparr>]
         4 6
       = ''hello''
   \<and> is_space ch = py_isspace (of_char ch)"
proof -
  have a: "chunk_text_parts segments (w_start win) (w_end win) []
     = map seg_text (filter (overlaps win) segments)"
    using chunk_text_parts_filter [of segments win "[]"] by simp
  have b: "audio_text_of [\<lparr>seg_start = 5, seg_end = 10, seg_text = '' talks resumed ''\<rparr>] 4 6
       = ''talks resumed''"
    by (simp add: audio_text_of_def py_strip_def is_space_def)
  have c: "audio_text_of
         [\<lparr>seg_start = 0, seg_end = 4, seg_text = ''Good evening.''\<rparr>,
          \<lparr>seg_start = 12, seg_end = 15, seg_text = ''The talks resumed today.''\<rparr>,
          \<lparr>seg_start = 20, seg_end = 24, seg_text = ''Good night.''\<rparr>] 0 20
       = ''Good evening. The talks resumed today.''"
    by (simp add: audio_text_of_def py_strip_def is_space_def)
  have d: "audio_text_of
         [\<lparr>seg_start = 5, seg_end = 10, seg_text = [CHR 0xA0] @ ''hello'' @ [CHR 0x85, CHR 0x09]\<rparr>]
         4 6
       = ''hello''"
    by (simp add: audio_text_of_def py_strip_def is_space_def)
  have e: "is_space ch = py_isspace (of_char ch)" by (rule is_space_code)
  have f: "(chunk_text_parts [seg] (w_start win) (w_end win) [] = [seg_text seg])
       = (seg_start seg < w_end win \<and> seg_end seg > w_start win)"
    by simp
  have g: "\<not> overlaps \<lparr>w_start = 0, w_end = 5\<rparr> \<lparr>seg_start = 5, seg_end = 10, seg_text = t\<rparr>"
    "overlaps \<lparr>w_start = 4, w_end = 6\<rparr> \<lparr>seg_start = 5, seg_end = 10, seg_text = t\<rparr>"
    by (simp_all add: overlaps_def)
  have h: "audio_text_of [\<lparr>seg_start = 5, seg_end = 10, seg_text = '' talks resumed ''\<rparr>] 0 5 = []"
    by (simp add: audio_text_of_def py_strip_def)
  have i: "audio_text_of segments (w_start win) (w_end win)
     = py_strip (py_join '' '' (map seg_text (filter (overlaps win) segments)))"
    using a by (simp add: audio_text_of_def)
  show ?thesis using a i f g h b c d e by - (intro conjI, assumption+)
qed


section \<open>Properties of the frame difference\<close>

lemma sum_sq_diff_commute:
  "sum_list (map2 (\<lambda>a b. (real a - real b)\<^sup>2) xs ys)
     = sum_list (map2 (\<lambda>a b. (real a - real b)\<^sup>2) ys xs)"
proof (induction xs arbitrary: ys)
  case Nil
  then show ?case by simp
next
  case (Cons x xs)
  show ?case
  proof (cases ys)
    case Nil
    then show ?thesis by simp
  next
    case (Cons y ys')
    then show ?thesis using Cons.IH [of ys'] by (simp add: power2_commute)
  qed
qed

lemma sum_sq_diff_nonneg: "0 \<le> sum_list (map2 (\<lambda>a b. (real a - real b)\<^sup>2) xs ys)"
  by (rule sum_list_nonneg) auto

lemma sum_sq_diff_same: "sum_list (map2 (\<lambda>a b. (real a - real b)\<^sup>2) xs xs) = 0"
  by (induction xs) simp_all



text \<open>
  C10.  On frames resized to \<open>64\<close> by \<open>64\<close> pixels, the frame-difference score is symmetric
  in its two arguments, a number that is not negative, and \<open>0\<close> when both arguments are
  the same frame.  When either argument is \<open>None\<close> it is positive infinity, which is
  greater than the scene-change threshold; so a window whose keyframe is available while
  no previous frame is carried always gets a fresh caption.
\<close>

theorem frame_difference_properties:
  assumes "cv2_contract env"
  shows "get_frame_difference env a b = get_frame_difference env b a
     \<and> float_nonneg (get_frame_difference env a b)
     \<and> get_frame_difference env (Some f) (Some f) = Finite 0
     \<and> get_frame_difference env None b = PosInf
     \<and> get_frame_difference env a None = PosInf
     \<and> float_gt (get_frame_difference env None b) scene_change_threshold
     \<and> float_gt (get_frame_difference env a None) scene_change_threshold
     \<and> (previous_frame sc = None \<and> extract_frame_at_time env p ((s + e) / 2) = Some g \<longrightarrow>
          caption_calls (snd (snd (snd (visual_context env p i s e sc w))))
            = caption_calls w @ [g])"
proof -
  have sh: "\<And>g. shape (cv2_gray env (cv2_resize env g (64, 64))) = (64, 64)"
    using assms by (simp add: cv2_contract_def)
  have sym: "get_frame_difference env a b = get_frame_difference env b a"
  proof (cases a)
    case None
    then show ?thesis by (cases b) (simp_all add: get_frame_difference_def)
  next
    case (Some f1)
    show ?thesis
    proof (cases b)
      case None
      then show ?thesis using Some by (simp add: get_frame_difference_def)
    next
      case (Some f2)
      show ?thesis
        unfolding get_frame_difference_def Let_def \<open>a = Some f1\<close> Some
        by (simp add: sh sum_sq_diff_commute [of "pixels (cv2_gray env (cv2_resize env f1 (64, 64)))"])
    qed
  qed
  have nn: "float_nonneg (get_frame_difference env a b)"
  proof (cases a)
    case None
    then show ?thesis by (simp add: get_frame_difference_def)
  next
    case (Some f1)
    show ?thesis
    proof (cases b)
      case None
      then show ?thesis using Some by (simp add: get_frame_difference_def)
    next
      case (Some f2)
      show ?thesis
        unfolding get_frame_difference_def Let_def \<open>a = Some f1\<close> Some
        by (simp add: sh sum_sq_diff_nonneg)
    qed
  qed
  have same: "get_frame_difference env (Some f) (Some f) = Finite 0"
    by (simp add: get_frame_difference_def Let_def sh sum_sq_diff_same)
  have n1: "get_frame_difference env None b = PosInf"
    by (simp add: get_frame_difference_def)
  have n2: "get_frame_difference env a None = PosInf"
    by (cases a) (simp_all add: get_frame_difference_def)
  have fresh: "previous_frame sc = None \<and> extract_frame_at_time env p ((s + e) / 2) = Some g \<longrightarrow>
          caption_calls (snd (snd (snd (visual_context env p i s e sc w))))
            = caption_calls w @ [g]"
    by (simp add: visual_context_def Let_def get_frame_difference_def)
  show ?thesis using sym nn same n1 n2 fresh by simp
qed

theorem frame_difference_properties_witness:
  "cv2_contract still_video
   \<and> get_frame_difference still_video (Some 3) (Some 200)
       = get_frame_difference still_video (Some 200) (Some 3)
   \<and> float_nonneg (get_frame_difference still_video (Some 3) (Some 200))
   \<and> get_frame_difference still_video (Some 7) (Some 7) = Finite 0
   \<and> get_frame_difference still_video None (Some 7) = PosInf
   \<and> float_gt (get_frame_difference still_video None (Some 7)) scene_change_threshold
   \<and> previous_frame \<lparr>previous_frame = None, previous_caption = ''none''\<rparr> = (None :: nat option)
   \<and> extract_frame_at_time still_video ''news.mp4'' ((10 + 30) / 2) = Some 7
   \<and> caption_calls (snd (snd (snd (visual_context still_video ''news.mp4'' 1 10 30
          \<lparr>previous_frame = None, previous_caption = ''none''\<rparr> empty_world)))) = [7]"
proof -
  have c: "cv2_contract still_video"
    by (simp add: cv2_contract_def still_video_def)
  have fr: "extract_frame_at_time still_video ''news.mp4'' ((10 + 30) / 2) = Some 7"
    by (simp add: still_video_def)
  have pf: "previous_frame \<lparr>previous_frame = None, previous_caption = ''none''\<rparr> = (None :: nat option)"
    by simp
  note t1 = frame_difference_properties [OF c, where a = "Some 3" and b = "Some 200" and f = 7]
  note t2 = frame_difference_properties [OF c, where a = None and b = "Some 7" and f = 7
      and sc = "\<lparr>previous_frame = None, previous_caption = ''none''\<rparr>" and p = "''news.mp4''"
      and s = 10 and e = 30 and g = 7 and i = 1 and w = empty_world]
  have cc: "caption_calls empty_world @ [7] = [7]" by (simp add: empty_world_def)
  have "caption_calls (snd (snd (snd (visual_context still_video ''news.mp4'' 1 10 30
          \<lparr>previous_frame = None, previous_caption = ''none''\<rparr> empty_world))))
        = caption_calls empty_world @ [7]"
    using t2 fr pf by blast
  then have fresh: "caption_calls (snd (snd (snd (visual_context still_video ''news.mp4'' 1 10 30
          \<lparr>previous_frame = None, previous_caption = ''none''\<rparr> empty_world)))) = [7]"
    using cc by simp
  show ?thesis using c t1 t2 fr pf fresh by blast
qed


section \<open>Properties of answer synthesis\<close>

text \<open>
  C8.  \<open>generate_answer\<close> never raises to its caller.  For an empty list of retrieved
  records it returns the fixed insufficient-information string without any request to the
  language collaborator.  For a non-empty list it sends exactly one request and returns the
  collaborator's answer when there is one, and a fixed error string otherwise:
  \<open>error_generating_response\<close> when the first choice has no content, \<open>error_occurred\<close>
  when the call raises or the response has no choice.
\<close>

theorem answer_never_raises:
  "(\<exists>s. fst (generate_answer chat q chunks) = Inr s)
   \<and> generate_answer chat q [] = (Inr insufficient_information, [])
   \<and> (chunks \<noteq> [] \<longrightarrow>
        snd (generate_answer chat q chunks)
          = [(system_prompt, user_message_of (context_text_of chunks) q)]
        \<and> (\<forall>a rest. chat system_prompt (user_message_of (context_text_of chunks) q)
                       = Inr (Some a # rest) \<and> a \<noteq> [] \<longrightarrow>
             fst (generate_answer chat q chunks) = Inr a)
        \<and> (\<forall>rest. chat system_prompt (user_message_of (context_text_of chunks) q)
                       = Inr (None # rest)
                  \<or> chat system_prompt (user_message_of (context_text_of chunks) q)
                       = Inr (Some [] # rest) \<longrightarrow>
             fst (generate_answer chat q chunks) = Inr error_generating_response)
        \<and> (\<forall>e. chat system_prompt (user_message_of (context_text_of chunks) q) = Inl e
                  \<or> chat system_prompt (user_message_of (context_text_of chunks) q) = Inr [] \<longrightarrow>
             fst (generate_answer chat q chunks) = Inr error_occurred))"
  by (auto simp: generate_answer_def Let_def split: sum.splits list.splits option.splits)

theorem answer_never_raises_witness:
  "[''[Visual Scene]: A document is signed.''] \<noteq> []
   \<and> generate_answer chat_answers ''What happened?'' [] = (Inr insufficient_information, [])
   \<and> chat_answers system_prompt
        (user_message_of (context_text_of [''[Visual Scene]: A document is signed.''])
           ''What happened?'')
        = Inr [Some ''The delegation met in Yevlakh today.'']
   \<and> ''The delegation met in Yevlakh today.'' \<noteq> []
   \<and> fst (generate_answer chat_answers ''What happened?''
             [''[Visual Scene]: A document is signed.''])
        = Inr ''The delegation met in Yevlakh today.''
   \<and> chat_raises system_prompt
        (user_message_of (context_text_of [''[Visual Scene]: A document is signed.''])
           ''What happened?'')
        = Inl APIError
   \<and> fst (generate_answer chat_raises ''What happened?''
             [''[Visual Scene]: A document is signed.''])
        = Inr error_occurred
   \<and> length (snd (generate_answer chat_raises ''What happened?''
             [''[Visual Scene]: A document is signed.''])) = 1"
proof -
  note t1 = answer_never_raises [where chat = chat_answers and q = "''What happened?''"
      and chunks = "[''[Visual Scene]: A document is signed.'']"]
  note t2 = answer_never_raises [where chat = chat_raises and q = "''What happened?''"
      and chunks = "[''[Visual Scene]: A document is signed.'']"]
  have ne: "[''[Visual Scene]: A document is signed.''] \<noteq> []" by simp
  have a: "chat_answers system_prompt
        (user_message_of (context_text_of [''[Visual Scene]: A document is signed.''])
           ''What happened?'')
        = Inr [Some ''The delegation met in Yevlakh today.'']"
    by (simp add: chat_answers_def)
  have ane: "''The delegation met in Yevlakh today.'' \<noteq> []" by simp
  have r: "chat_raises system_prompt
        (user_message_of (context_text_of [''[Visual Scene]: A document is signed.''])
           ''What happened?'')
        = Inl APIError"
    by (simp add: chat_raises_def)
  have c1: "generate_answer chat_answers ''What happened?'' [] = (Inr insufficient_information, [])"
    using t1 by blast
  have c2: "fst (generate_answer chat_answers ''What happened?''
             [''[Visual Scene]: A document is signed.''])
        = Inr ''The delegation met in Yevlakh today.''"
    using t1 ne a ane by blast
  have c3: "fst (generate_answer chat_raises ''What happened?''
             [''[Visual Scene]: A document is signed.''])
        = Inr error_occurred"
    using t2 ne r by blast
  have "snd (generate_answer chat_raises ''What happened?''
             [''[Visual Scene]: A document is signed.''])
      = [(system_prompt, user_message_of (context_text_of [''[Visual Scene]: A document is signed.'']) ''What happened?'')]"
    using t2 ne by blast
  then have c4: "length (snd (generate_answer chat_raises ''What happened?''
             [''[Visual Scene]: A document is signed.''])) = 1"
    by simp
  show ?thesis using ne a ane r c1 c2 c3 c4 by blast
qed


section \<open>Properties of the resilient indexer\<close>

lemma attempts_upt: "[0..<max_retries] = [0, 1, 2]"
  by (simp add: max_retries_def upt_rec)

lemma collection_add_cases:
  "collection_add raises r w =
     (case raises (add_calls w) of
        Some e \<Rightarrow> (Some e, w\<lparr>add_calls := Suc (add_calls w)\<rparr>)
      | None \<Rightarrow> (None, if row_id r \<in> set (map row_id (rows w))
                      then w\<lparr>add_calls := Suc (add_calls w)\<rparr>
                      else w\<lparr>add_calls := Suc (add_calls w), rows := rows w @ [r]\<rparr>))"
  by (simp add: collection_add_def Let_def)

lemma retry_loop_three:
  fixes w :: "'f world"
  shows "let w' = retry_loop raises r [0, 1, 2] w; k = add_calls w in
     k < add_calls w' \<and> add_calls w' \<le> k + 3
     \<and> caption_calls w' = caption_calls w
     \<and> (raises k = None \<longrightarrow>
          add_calls w' = k + 1 \<and> slept w' = slept w \<and> printed w' = printed w
          \<and> row_id r \<in> set (map row_id (rows w')))
     \<and> (raises k \<noteq> None \<and> raises (k + 1) = None \<longrightarrow>
          add_calls w' = k + 2 \<and> slept w' = slept w + 2
          \<and> row_id r \<in> set (map row_id (rows w')))
     \<and> (raises k \<noteq> None \<and> raises (k + 1) \<noteq> None \<and> raises (k + 2) = None \<longrightarrow>
          add_calls w' = k + 3 \<and> slept w' = slept w + 4
          \<and> row_id r \<in> set (map row_id (rows w')))
     \<and> (raises k \<noteq> None \<and> raises (k + 1) \<noteq> None \<and> raises (k + 2) \<noteq> None \<longrightarrow>
          add_calls w' = k + 3 \<and> slept w' = slept w + 4 \<and> rows w' = rows w
          \<and> printed w' = printed w @
               [ConnectionErrorSaving 1 3, ConnectionErrorSaving 2 3,
                ConnectionErrorSaving 3 3, FailedToSave (row_id r) 3])
     \<and> ((raises k = None \<or> raises (k + 1) = None \<or> raises (k + 2) = None)
          \<and> row_id r \<notin> set (map row_id (rows w)) \<longrightarrow> rows w' = rows w @ [r])"
  by (auto simp: collection_add_cases Let_def max_retries_def split: option.splits)

lemma add_chunk_to_db_retry:
  "add_chunk_to_db raises fmt vid s e text meta w =
     retry_loop raises
       \<lparr>row_id = chunk_id fmt vid s e, row_document = text,
        row_metadata =
          AList.update ''end_time'' (MNum e)
            (AList.update ''start_time'' (MNum s)
               (AList.update ''video_id'' (MStr vid) (case meta of None \<Rightarrow> [] | Some m \<Rightarrow> m)))\<rparr>
       [0, 1, 2] w"
  by (simp add: add_chunk_to_db_def Let_def attempts_upt)

lemma add_chunk_to_db_calls:
  "add_calls w < add_calls (add_chunk_to_db raises fmt vid s e text meta w)
   \<and> add_calls (add_chunk_to_db raises fmt vid s e text meta w) \<le> add_calls w + 3
   \<and> caption_calls (add_chunk_to_db raises fmt vid s e text meta w) = caption_calls w"
  using retry_loop_three [of raises _ w]
  by (simp only: add_chunk_to_db_retry Let_def)

lemma visual_context_add_calls:
  "add_calls (snd (snd (snd (visual_context env p i s e sc w)))) = add_calls w"
  by (simp add: visual_context_def Let_def split: option.splits)

lemma process_chunk_add_calls:
  "add_calls w < add_calls (snd (process_chunk env vm segs n i chunk sc w))
   \<and> add_calls (snd (process_chunk env vm segs n i chunk sc w)) \<le> add_calls w + 3"
proof -
  obtain v t sc' w1 where vc:
    "visual_context env (file_path vm) i (w_start chunk) (w_end chunk) sc w = (v, t, sc', w1)"
    by (cases "visual_context env (file_path vm) i (w_start chunk) (w_end chunk) sc w") auto
  have "add_calls w1 = add_calls w"
    using visual_context_add_calls [of env "file_path vm" i "w_start chunk" "w_end chunk" sc w] vc
    by simp
  then show ?thesis
    using add_chunk_to_db_calls [of w1] vc
    by (simp add: process_chunk_def Let_def)
qed

lemma chunks_loop_add_calls:
  "add_calls w + length chunks \<le> add_calls (chunks_loop env vm segs n i chunks sc w)
   \<and> add_calls (chunks_loop env vm segs n i chunks sc w) \<le> add_calls w + 3 * length chunks"
proof (induction chunks arbitrary: i sc w)
  case Nil
  then show ?case by simp
next
  case (Cons c cs)
  obtain sc' w' where pc: "process_chunk env vm segs n i c sc w = (sc', w')"
    by (cases "process_chunk env vm segs n i c sc w") auto
  have "add_calls w < add_calls w' \<and> add_calls w' \<le> add_calls w + 3"
    using process_chunk_add_calls [of w env vm segs n i c sc] pc by simp
  then show ?case using Cons.IH [of w' "Suc i" sc'] pc by simp
qed

text \<open>
  C7.  A commit calls \<open>collection.add\<close> at least once and at most \<open>max_retries = 3\<close>
  times, and stops at the first call that does not raise: after \<open>j\<close> failures followed
  by a success it has made \<open>j + 1\<close> calls and slept \<open>2 * j\<close> seconds, and the identity is
  in the store (with the committed text, when the identity was not stored before); in
  particular a store that fails twice and then succeeds stores the record.  After three
  failures it has slept \<open>4\<close> seconds, prints that the chunk could not be saved, leaves the
  rows as they were and returns.  The loop over the chunks of a video commits every chunk
  whatever happened to the ones before: it makes at least one and at most three calls
  per chunk.
\<close>

theorem commit_bounded_retry:
  fixes w :: "'f world" and v :: "'f world"
  shows "(let w' = add_chunk_to_db raises fmt vid s e doc meta w;
              k = add_calls w;
              cid = chunk_id fmt vid s e
          in k < add_calls w' \<and> add_calls w' \<le> k + max_retries
             \<and> (raises k = None \<longrightarrow>
                  add_calls w' = k + 1 \<and> slept w' = slept w \<and> printed w' = printed w
                  \<and> cid \<in> set (map row_id (rows w')))
             \<and> (raises k \<noteq> None \<and> raises (k + 1) = None \<longrightarrow>
                  add_calls w' = k + 2 \<and> slept w' = slept w + 2
                  \<and> cid \<in> set (map row_id (rows w')))
             \<and> (raises k \<noteq> None \<and> raises (k + 1) \<noteq> None \<and> raises (k + 2) = None \<longrightarrow>
                  add_calls w' = k + 3 \<and> slept w' = slept w + 4
                  \<and> cid \<in> set (map row_id (rows w')))
             \<and> (raises k \<noteq> None \<and> raises (k + 1) \<noteq> None \<and> raises (k + 2) \<noteq> None \<longrightarrow>
                  add_calls w' = k + 3 \<and> slept w' = slept w + 4 \<and> rows w' = rows w
                  \<and> printed w' = printed w @
                       [ConnectionErrorSaving 1 3, ConnectionErrorSaving 2 3,
                        ConnectionErrorSaving 3 3, FailedToSave cid 3])
             \<and> ((raises k = None \<or> raises (k + 1) = None \<or> raises (k + 2) = None)
                  \<and> cid \<notin> set (map row_id (rows w)) \<longrightarrow>
                  (\<exists>m. rows w' = rows w @ [\<lparr>row_id = cid, row_document = doc, row_metadata = m\<rparr>])))
     \<and> add_calls v + length chunks \<le> add_calls (chunks_loop env vm segs n i chunks sc v)
     \<and> add_calls (chunks_loop env vm segs n i chunks sc v) \<le> add_calls v + max_retries * length chunks"
proof -
  let ?r = "\<lparr>row_id = chunk_id fmt vid s e, row_document = doc,
        row_metadata =
          AList.update ''end_time'' (MNum e)
            (AList.update ''start_time'' (MNum s)
               (AList.update ''video_id'' (MStr vid) (case meta of None \<Rightarrow> [] | Some m \<Rightarrow> m)))\<rparr>"
  have id: "row_id ?r = chunk_id fmt vid s e" by simp
  note a = retry_loop_three [of raises ?r w, unfolded id Let_def]
  have b: "add_calls v + length chunks \<le> add_calls (chunks_loop env vm segs n i chunks sc v)
     \<and> add_calls (chunks_loop env vm segs n i chunks sc v) \<le> add_calls v + max_retries * length chunks"
    using chunks_loop_add_calls [of v chunks env vm segs n i sc] by (simp add: max_retries_def)
  show ?thesis
    unfolding Let_def add_chunk_to_db_retry
    using a b by (simp add: max_retries_def)
qed

theorem commit_bounded_retry_witness:
  "raises_twice (add_calls empty_world) \<noteq> None
   \<and> raises_twice (add_calls empty_world + 1) \<noteq> None
   \<and> raises_twice (add_calls empty_world + 2) = None
   \<and> add_calls (add_chunk_to_db raises_twice repr2 ''1b9d6bcd'' 0 20 ''text'' None empty_world) = 3
   \<and> slept (add_chunk_to_db raises_twice repr2 ''1b9d6bcd'' 0 20 ''text'' None empty_world) = 4
   \<and> map row_id (rows (add_chunk_to_db raises_twice repr2 ''1b9d6bcd'' 0 20 ''text'' None empty_world))
       = [''1b9d6bcd_0.0_20.0'']
   \<and> map row_document (rows (add_chunk_to_db raises_twice repr2 ''1b9d6bcd'' 0 20 ''text'' None empty_world))
       = [''text'']
   \<and> raises_thrice (add_calls empty_world) \<noteq> None
   \<and> raises_thrice (add_calls empty_world + 1) \<noteq> None
   \<and> raises_thrice (add_calls empty_world + 2) \<noteq> None
   \<and> rows (add_chunk_to_db raises_thrice repr2 ''1b9d6bcd'' 0 20 ''text'' None empty_world) = []
   \<and> printed (add_chunk_to_db raises_thrice repr2 ''1b9d6bcd'' 0 20 ''text'' None empty_world)
       = [ConnectionErrorSaving 1 3, ConnectionErrorSaving 2 3, ConnectionErrorSaving 3 3,
          FailedToSave ''1b9d6bcd_0.0_20.0'' 3]
   \<and> never_raises (add_calls empty_world) = None
   \<and> add_calls (add_chunk_to_db never_raises repr2 ''1b9d6bcd'' 0 20 ''text'' None empty_world) = 1
   \<and> slept (add_chunk_to_db never_raises repr2 ''1b9d6bcd'' 0 20 ''text'' None empty_world) = 0
   \<and> raises_twice (add_calls (empty_world\<lparr>add_calls := 1\<rparr>)) \<noteq> None
   \<and> raises_twice (add_calls (empty_world\<lparr>add_calls := 1\<rparr>) + 1) = None
   \<and> slept (add_chunk_to_db raises_twice repr2 ''1b9d6bcd'' 0 20 ''text'' None
              (empty_world\<lparr>add_calls := 1\<rparr>)) = 2
   \<and> 2 \<le> add_calls (chunks_loop flaky_video news_meta
          [\<lparr>seg_start = 0, seg_end = 4, seg_text = ''Good evening.''\<rparr>] 2 0
          [\<lparr>w_start = 0, w_end = 20\<rparr>, \<lparr>w_start = 10, w_end = 25\<rparr>] scene0 empty_world)
   \<and> map row_id (rows (chunks_loop flaky_video news_meta
          [\<lparr>seg_start = 0, seg_end = 4, seg_text = ''Good evening.''\<rparr>] 2 0
          [\<lparr>w_start = 0, w_end = 20\<rparr>, \<lparr>w_start = 10, w_end = 25\<rparr>] scene0 empty_world))
       = [''1b9d6bcd_10.0_25.0'']"
proof -
  have cid: "chunk_id repr2 ''1b9d6bcd'' 0 20 = ''1b9d6bcd_0.0_20.0''"
    by (simp add: chunk_id_def repr2_def Let_def string_of_nat.simps digit_def)
  have e0: "add_calls empty_world = 0" "slept empty_world = 0" "rows empty_world = []"
    "printed empty_world = []"
    by (simp_all add: empty_world_def)
  have e1: "add_calls (empty_world\<lparr>add_calls := 1\<rparr>) = 1" "slept (empty_world\<lparr>add_calls := 1\<rparr>) = 0"
    by (simp_all add: empty_world_def)
  note t = commit_bounded_retry [where fmt = repr2 and vid = "''1b9d6bcd''" and s = 0 and e = 20
      and doc = "''text''" and meta = None and v = empty_world and env = flaky_video
      and vm = news_meta and segs = "[\<lparr>seg_start = 0, seg_end = 4, seg_text = ''Good evening.''\<rparr>]"
      and n = 2 and i = 0 and sc = scene0
      and chunks = "[\<lparr>w_start = 0, w_end = 20\<rparr>, \<lparr>w_start = 10, w_end = 25\<rparr>]",
      unfolded Let_def cid]
  note a = t [where raises = raises_twice and w = empty_world, unfolded e0]
  note b = t [where raises = raises_thrice and w = empty_world, unfolded e0]
  note c = t [where raises = never_raises and w = empty_world, unfolded e0]
  note d = t [where raises = raises_twice and w = "empty_world\<lparr>add_calls := 1\<rparr>", unfolded e1]
  have a1: "add_calls (add_chunk_to_db raises_twice repr2 ''1b9d6bcd'' 0 20 ''text'' None empty_world) = 3"
    "slept (add_chunk_to_db raises_twice repr2 ''1b9d6bcd'' 0 20 ''text'' None empty_world) = 4"
    using a by (simp_all add: raises_twice_def)
  have "\<exists>m. rows (add_chunk_to_db raises_twice repr2 ''1b9d6bcd'' 0 20 ''text'' None empty_world)
       = [] @ [\<lparr>row_id = ''1b9d6bcd_0.0_20.0'', row_document = ''text'', row_metadata = m\<rparr>]"
    using a by (simp add: raises_twice_def)
  then have a2: "map row_id (rows (add_chunk_to_db raises_twice repr2 ''1b9d6bcd'' 0 20 ''text'' None empty_world))
       = [''1b9d6bcd_0.0_20.0'']"
     "map row_document (rows (add_chunk_to_db raises_twice repr2 ''1b9d6bcd'' 0 20 ''text'' None empty_world))
       = [''text'']"
    by auto
  have b1: "rows (add_chunk_to_db raises_thrice repr2 ''1b9d6bcd'' 0 20 ''text'' None empty_world) = []"
    "printed (add_chunk_to_db raises_thrice repr2 ''1b9d6bcd'' 0 20 ''text'' None empty_world)
       = [ConnectionErrorSaving 1 3, ConnectionErrorSaving 2 3, ConnectionErrorSaving 3 3,
          FailedToSave ''1b9d6bcd_0.0_20.0'' 3]"
    using b by (simp_all add: raises_thrice_def)
  have c1: "add_calls (add_chunk_to_db never_raises repr2 ''1b9d6bcd'' 0 20 ''text'' None empty_world) = 1"
    "slept (add_chunk_to_db never_raises repr2 ''1b9d6bcd'' 0 20 ''text'' None empty_world) = 0"
    using c by (simp_all add: never_raises_def)
  have d1: "slept (add_chunk_to_db raises_twice repr2 ''1b9d6bcd'' 0 20 ''text'' None
              (empty_world\<lparr>add_calls := 1\<rparr>)) = 2"
    using d by (simp add: raises_twice_def)
  have l1: "2 \<le> add_calls (chunks_loop flaky_video news_meta
          [\<lparr>seg_start = 0, seg_end = 4, seg_text = ''Good evening.''\<rparr>] 2 0
          [\<lparr>w_start = 0, w_end = 20\<rparr>, \<lparr>w_start = 10, w_end = 25\<rparr>] scene0 empty_world)"
    using a by simp
  have l2: "map row_id (rows (chunks_loop flaky_video news_meta
          [\<lparr>seg_start = 0, seg_end = 4, seg_text = ''Good evening.''\<rparr>] 2 0
          [\<lparr>w_start = 0, w_end = 20\<rparr>, \<lparr>w_start = 10, w_end = 25\<rparr>] scene0 empty_world))
       = [''1b9d6bcd_10.0_25.0'']"
    by (simp add: flaky_video_def still_video_def news_meta_def scene0_def empty_world_def
      process_chunk_def visual_context_def Let_def add_chunk_to_db_retry collection_add_cases
      raises_thrice_def max_retries_def get_frame_difference_def
      chunk_id_def repr2_def string_of_nat.simps digit_def)
  have h2: "raises_twice (add_calls empty_world) \<noteq> None"
    "raises_twice (add_calls empty_world + 1) \<noteq> None"
    "raises_twice (add_calls empty_world + 2) = None"
    "raises_twice (add_calls (empty_world\<lparr>add_calls := 1\<rparr>)) \<noteq> None"
    "raises_twice (add_calls (empty_world\<lparr>add_calls := 1\<rparr>) + 1) = None"
    by (simp_all add: empty_world_def raises_twice_def)
  have h3: "raises_thrice (add_calls empty_world) \<noteq> None"
    "raises_thrice (add_calls empty_world + 1) \<noteq> None"
    "raises_thrice (add_calls empty_world + 2) \<noteq> None"
    by (simp_all add: empty_world_def raises_thrice_def)
  have h0: "never_raises (add_calls empty_world) = None"
    by (simp add: never_raises_def)
  show ?thesis
    using a1 a2 b1 c1 d1 l1 l2 h2 h3 h0 by - (intro conjI, assumption+)
qed


section \<open>Idempotence of the commit\<close>

lemma retry_loop_rows:
  fixes w :: "'f world"
  shows "(row_id r \<in> set (map row_id (rows w)) \<longrightarrow> rows (retry_loop raises r [0, 1, 2] w) = rows w)
     \<and> (rows (retry_loop raises r [0, 1, 2] w) = rows w
          \<or> rows (retry_loop raises r [0, 1, 2] w) = rows w @ [r])"
  by (auto simp: collection_add_cases Let_def max_retries_def split: option.splits)

lemma retry_loop_distinct:
  fixes w :: "'f world"
  assumes "distinct (map row_id (rows w))"
  shows "distinct (map row_id (rows (retry_loop raises r [0, 1, 2] w)))"
proof (cases "row_id r \<in> set (map row_id (rows w))")
  case True
  then show ?thesis using retry_loop_rows [of r w raises] assms by simp
next
  case False
  then show ?thesis using retry_loop_rows [of r w raises] assms by auto
qed

lemma distinct_key_filter:
  "distinct (map f xs) \<Longrightarrow> length (filter (\<lambda>r. f r = c) xs) \<le> 1"
proof (induction xs)
  case Nil
  then show ?case by simp
next
  case (Cons x xs)
  show ?case
  proof (cases "f x = c")
    case True
    have "f x \<notin> f ` set xs" using Cons.prems by simp
    then have "\<forall>r \<in> set xs. f r \<noteq> c" using True by blast
    then have "filter (\<lambda>r. f r = c) xs = []"
      by (simp add: filter_empty_conv)
    then show ?thesis using True by simp
  next
    case False
    then show ?thesis using Cons by simp
  qed
qed

text \<open>
  C1 (as the code has it).  Committing the same identity twice never duplicates: a store
  whose identities are distinct keeps them distinct, so at most one record has the
  identity.  The second commit does not replace either: \<open>collection.add\<close> ignores an
  identity that is already stored, so once a record with the identity is in the store a
  further commit leaves the rows as they are, and when the first commit had a successful
  attempt on a store without the identity, the one record with this identity holds the
  content of the first commit.
\<close>

theorem commit_twice_keeps_first:
  fixes w :: "'f world"
  assumes "distinct (map row_id (rows w))"
  shows "let w1 = add_chunk_to_db raises fmt vid s e text1 meta1 w;
             w2 = add_chunk_to_db raises fmt vid s e text2 meta2 w1;
             cid = chunk_id fmt vid s e
         in distinct (map row_id (rows w2))
            \<and> length (filter (\<lambda>r. row_id r = cid) (rows w2)) \<le> 1
            \<and> (cid \<in> set (map row_id (rows w1)) \<longrightarrow> rows w2 = rows w1)
            \<and> (cid \<notin> set (map row_id (rows w))
                 \<and> (raises (add_calls w) = None \<or> raises (add_calls w + 1) = None
                      \<or> raises (add_calls w + 2) = None) \<longrightarrow>
                 map row_document (filter (\<lambda>r. row_id r = cid) (rows w2)) = [text1])"
proof -
  let ?m1 = "AList.update ''end_time'' (MNum e)
            (AList.update ''start_time'' (MNum s)
               (AList.update ''video_id'' (MStr vid) (case meta1 of None \<Rightarrow> [] | Some m \<Rightarrow> m)))"
  let ?m2 = "AList.update ''end_time'' (MNum e)
            (AList.update ''start_time'' (MNum s)
               (AList.update ''video_id'' (MStr vid) (case meta2 of None \<Rightarrow> [] | Some m \<Rightarrow> m)))"
  let ?cid = "chunk_id fmt vid s e"
  let ?r1 = "\<lparr>row_id = ?cid, row_document = text1, row_metadata = ?m1\<rparr>"
  let ?r2 = "\<lparr>row_id = ?cid, row_document = text2, row_metadata = ?m2\<rparr>"
  define w1 where "w1 = retry_loop raises ?r1 [0, 1, 2] w"
  define w2 where "w2 = retry_loop raises ?r2 [0, 1, 2] w1"
  have d1: "distinct (map row_id (rows w1))"
    unfolding w1_def using assms by (rule retry_loop_distinct)
  have d2: "distinct (map row_id (rows w2))"
    unfolding w2_def using d1 by (rule retry_loop_distinct)
  have le: "length (filter (\<lambda>r. row_id r = ?cid) (rows w2)) \<le> 1"
    using d2 by (rule distinct_key_filter)
  have keep: "?cid \<in> set (map row_id (rows w1)) \<longrightarrow> rows w2 = rows w1"
    unfolding w2_def using retry_loop_rows [of ?r2 w1 raises] by simp
  have first: "?cid \<notin> set (map row_id (rows w))
                 \<and> (raises (add_calls w) = None \<or> raises (add_calls w + 1) = None
                      \<or> raises (add_calls w + 2) = None) \<longrightarrow>
                 map row_document (filter (\<lambda>r. row_id r = ?cid) (rows w2)) = [text1]"
  proof
    assume h: "?cid \<notin> set (map row_id (rows w))
                 \<and> (raises (add_calls w) = None \<or> raises (add_calls w + 1) = None
                      \<or> raises (add_calls w + 2) = None)"
    have "row_id ?r1 = ?cid" by simp
    then have r1: "rows w1 = rows w @ [?r1]"
      unfolding w1_def using retry_loop_three [of raises ?r1 w] h
      by (simp only: Let_def) blast
    then have "rows w2 = rows w @ [?r1]" using keep by simp
    moreover have "filter (\<lambda>r. row_id r = ?cid) (rows w) = []"
      using h by (force simp: filter_empty_conv)
    ultimately show "map row_document (filter (\<lambda>r. row_id r = ?cid) (rows w2)) = [text1]"
      by simp
  qed
  show ?thesis
    unfolding Let_def add_chunk_to_db_retry
    using d2 le keep first unfolding w2_def w1_def by blast
qed

theorem commit_twice_keeps_first_witness:
  "distinct (map row_id (rows empty_world))
   \<and> chunk_id repr2 ''1b9d6bcd'' 0 20 \<notin> set (map row_id (rows empty_world))
   \<and> never_raises (add_calls empty_world) = None
   \<and> chunk_id repr2 ''1b9d6bcd'' 0 20 \<in> set (map row_id (rows
        (add_chunk_to_db never_raises repr2 ''1b9d6bcd'' 0 20 ''old text'' None empty_world)))
   \<and> rows (add_chunk_to_db never_raises repr2 ''1b9d6bcd'' 0 20 ''new text'' None
        (add_chunk_to_db never_raises repr2 ''1b9d6bcd'' 0 20 ''old text'' None empty_world))
      = rows (add_chunk_to_db never_raises repr2 ''1b9d6bcd'' 0 20 ''old text'' None empty_world)
   \<and> map row_document (filter (\<lambda>r. row_id r = chunk_id repr2 ''1b9d6bcd'' 0 20)
        (rows (add_chunk_to_db never_raises repr2 ''1b9d6bcd'' 0 20 ''new text'' None
          (add_chunk_to_db never_raises repr2 ''1b9d6bcd'' 0 20 ''old text'' None empty_world))))
      = [''old text'']"
proof -
  have d: "distinct (map row_id (rows empty_world))" by (simp add: empty_world_def)
  have n: "chunk_id repr2 ''1b9d6bcd'' 0 20 \<notin> set (map row_id (rows empty_world))"
    by (simp add: empty_world_def)
  have r: "never_raises (add_calls empty_world) = None" by (simp add: never_raises_def)
  have i: "chunk_id repr2 ''1b9d6bcd'' 0 20 \<in> set (map row_id (rows
        (add_chunk_to_db never_raises repr2 ''1b9d6bcd'' 0 20 ''old text'' None empty_world)))"
    by (simp add: empty_world_def add_chunk_to_db_retry collection_add_cases never_raises_def)
  note t = commit_twice_keeps_first [OF d, where raises = never_raises and fmt = repr2
      and vid = "''1b9d6bcd''" and s = 0 and e = 20 and ?text1.0 = "''old text''"
      and ?text2.0 = "''new text''" and ?meta1.0 = None and ?meta2.0 = None, unfolded Let_def]
  have k: "rows (add_chunk_to_db never_raises repr2 ''1b9d6bcd'' 0 20 ''new text'' None
        (add_chunk_to_db never_raises repr2 ''1b9d6bcd'' 0 20 ''old text'' None empty_world))
      = rows (add_chunk_to_db never_raises repr2 ''1b9d6bcd'' 0 20 ''old text'' None empty_world)"
    using t i by blast
  have f: "map row_document (filter (\<lambda>r. row_id r = chunk_id repr2 ''1b9d6bcd'' 0 20)
        (rows (add_chunk_to_db never_raises repr2 ''1b9d6bcd'' 0 20 ''new text'' None
          (add_chunk_to_db never_raises repr2 ''1b9d6bcd'' 0 20 ''old text'' None empty_world))))
      = [''old text'']"
    using t n r by blast
  show ?thesis using d n r i k f by - (intro conjI, assumption+)
qed

text \<open>
  C1 as stated does not hold: after committing \<open>old text\<close> and then \<open>new text\<close> under
  the same identity, with a store that never fails, the one stored record holds
  \<open>old text\<close>.  It holds \<open>old text\<close> as well when the three attempts of the second commit
  all raise, whatever the store does with an identity it already has.
\<close>

theorem commit_twice_counterexample:
  "map row_id (rows (add_chunk_to_db never_raises repr2 ''1b9d6bcd'' 0 20 ''new text'' None
       (add_chunk_to_db never_raises repr2 ''1b9d6bcd'' 0 20 ''old text'' None empty_world)))
     = [''1b9d6bcd_0.0_20.0'']
   \<and> map row_document (rows (add_chunk_to_db never_raises repr2 ''1b9d6bcd'' 0 20 ''new text'' None
       (add_chunk_to_db never_raises repr2 ''1b9d6bcd'' 0 20 ''old text'' None empty_world)))
     = [''old text'']
   \<and> ''old text'' \<noteq> ''new text''
   \<and> map row_document (rows (add_chunk_to_db raises_later repr2 ''1b9d6bcd'' 0 20 ''new text'' None
       (add_chunk_to_db raises_later repr2 ''1b9d6bcd'' 0 20 ''old text'' None empty_world)))
     = [''old text'']
   \<and> add_calls (add_chunk_to_db raises_later repr2 ''1b9d6bcd'' 0 20 ''new text'' None
       (add_chunk_to_db raises_later repr2 ''1b9d6bcd'' 0 20 ''old text'' None empty_world)) = 4"
  by (simp add: empty_world_def add_chunk_to_db_retry collection_add_cases never_raises_def
      raises_later_def max_retries_def
      chunk_id_def repr2_def Let_def string_of_nat.simps digit_def)


section \<open>Record identity across ingestion runs\<close>

lemma get_video_duration_cong:
  "video_capture a = video_capture b \<Longrightarrow> get_video_duration a fp = get_video_duration b fp"
  by (simp add: get_video_duration_def)

lemma ingest_loop_same_draws:
  assumes "video_capture a = video_capture b"
    and "\<forall>k. take 8 (uuid4 a k) = take 8 (uuid4 b k)"
  shows "ingest_loop a files k acc = ingest_loop b files k acc"
  using assms
  by (induction files arbitrary: k acc)
     (simp_all add: get_video_duration_cong [of a b] split: option.splits)

lemma ingest_loop_ids:
  "\<exists>n. map video_id (ingest_loop env files k acc)
     = map video_id acc @ map (\<lambda>j. take 8 (uuid4 env j)) [k..<k + n]"
proof (induction files arbitrary: k acc)
  case Nil
  have "map video_id acc = map video_id acc @ map (\<lambda>j. take 8 (uuid4 env j)) [k..<k + 0]"
    by simp
  then show ?case by (metis ingest_loop.simps(1))
next
  case (Cons fp rest)
  show ?case
  proof (cases "get_video_duration env fp")
    case None
    then show ?thesis using Cons.IH [of k acc] by simp
  next
    case (Some d)
    let ?v = "\<lparr>video_id = take 8 (uuid4 env k), filename = basename fp, file_path = fp,
                 duration_seconds = py_round2 d\<rparr>"
    obtain n where n: "map video_id (ingest_loop env rest (Suc k) (acc @ [?v]))
        = map video_id (acc @ [?v]) @ map (\<lambda>j. take 8 (uuid4 env j)) [Suc k..<Suc k + n]"
      using Cons.IH [of "Suc k" "acc @ [?v]"] by blast
    have "[k..<k + Suc n] = k # [Suc k..<Suc k + n]" by (simp add: upt_conv_Cons)
    then have "map video_id (ingest_loop env (fp # rest) k acc)
        = map video_id acc @ map (\<lambda>j. take 8 (uuid4 env j)) [k..<k + Suc n]"
      using n Some by simp
    then show ?thesis by blast
  qed
qed

lemma chunk_id_token:
  assumes "length v1 = length v2" and "v1 \<noteq> v2"
  shows "chunk_id fmt v1 s e \<noteq> chunk_id fmt v2 s' e'"
  using assms by (simp add: chunk_id_def)

text \<open>
  C2 (as the code has it).  The identity \<open>{video_id}_{start}_{end}\<close> is a function of the
  video's token and the window: equal tokens give equal identities, and different tokens
  of the same length give different identities.  The token does not come from the file:
  the \<open>n\<close>-th readable file of a run gets the first eight characters of the \<open>n\<close>-th UUID
  that the run draws.  Two runs over the same files, reading the same durations, ingest
  the same videos with the same tokens when the UUIDs they draw agree on their first eight
  characters.
\<close>

theorem identity_follows_token:
  "(v1 = v2 \<longrightarrow> chunk_id fmt v1 s e = chunk_id fmt v2 s e)
   \<and> (length v1 = length v2 \<and> v1 \<noteq> v2 \<longrightarrow> chunk_id fmt v1 s e \<noteq> chunk_id fmt v2 s e)
   \<and> map video_id (ingest_videos a files)
       = map (\<lambda>j. take 8 (uuid4 a j)) [0..<length (ingest_videos a files)]
   \<and> (video_capture a = video_capture b \<and> (\<forall>k. take 8 (uuid4 a k) = take 8 (uuid4 b k)) \<longrightarrow>
        ingest_videos a files = ingest_videos b files)"
proof -
  obtain n where n: "map video_id (ingest_videos a files) = map (\<lambda>j. take 8 (uuid4 a j)) [0..<n]"
    using ingest_loop_ids [of a files 0 "[]"] by (auto simp: ingest_videos_def)
  then have "length (map video_id (ingest_videos a files)) = n" by simp
  then have "n = length (ingest_videos a files)" by simp
  then have ids: "map video_id (ingest_videos a files)
       = map (\<lambda>j. take 8 (uuid4 a j)) [0..<length (ingest_videos a files)]"
    using n by simp
  have same: "video_capture a = video_capture b \<and> (\<forall>k. take 8 (uuid4 a k) = take 8 (uuid4 b k)) \<longrightarrow>
        ingest_videos a files = ingest_videos b files"
    using ingest_loop_same_draws [of a b files 0 "[]"] by (simp add: ingest_videos_def)
  have diff: "length v1 = length v2 \<and> v1 \<noteq> v2 \<longrightarrow> chunk_id fmt v1 s e \<noteq> chunk_id fmt v2 s e"
    using chunk_id_token [of v1 v2 fmt s e s e] by blast
  show ?thesis using ids same diff by blast
qed

theorem identity_follows_token_witness:
  "length ''1b9d6bcd'' = length ''6ec0bd7f'' \<and> ''1b9d6bcd'' \<noteq> ''6ec0bd7f''
   \<and> chunk_id repr2 ''1b9d6bcd'' 0 20 \<noteq> chunk_id repr2 ''6ec0bd7f'' 0 20
   \<and> chunk_id repr2 ''1b9d6bcd'' 0 20 = chunk_id repr2 ''1b9d6bcd'' 0 20
   \<and> video_capture first_run = video_capture replay_run
   \<and> (\<forall>k. take 8 (uuid4 first_run k) = take 8 (uuid4 replay_run k))
   \<and> ingest_videos first_run [''data/videos/news.mp4''] = ingest_videos replay_run [''data/videos/news.mp4'']
   \<and> map video_id (ingest_videos first_run [''data/videos/news.mp4'']) = [''1b9d6bcd'']"
proof -
  note t = identity_follows_token [where ?v1.0 = "''1b9d6bcd''" and ?v2.0 = "''6ec0bd7f''"
      and fmt = repr2 and s = 0 and e = 20 and a = first_run and b = replay_run
      and files = "[''data/videos/news.mp4'']"]
  have l: "length ''1b9d6bcd'' = length ''6ec0bd7f'' \<and> ''1b9d6bcd'' \<noteq> ''6ec0bd7f''" by simp
  have d: "chunk_id repr2 ''1b9d6bcd'' 0 20 \<noteq> chunk_id repr2 ''6ec0bd7f'' 0 20"
    using t l by blast
  have len: "length (ingest_videos first_run [''data/videos/news.mp4'']) = 1"
    by (simp add: first_run_def ingest_videos_def get_video_duration_def)
  have "map video_id (ingest_videos first_run [''data/videos/news.mp4''])
      = map (\<lambda>j. take 8 (uuid4 first_run j)) [0..<length (ingest_videos first_run [''data/videos/news.mp4''])]"
    using t by blast
  then have ids: "map video_id (ingest_videos first_run [''data/videos/news.mp4'']) = [''1b9d6bcd'']"
    unfolding len by (simp add: first_run_def)
  have vc: "video_capture first_run = video_capture replay_run"
    by (simp add: first_run_def replay_run_def)
  have dr: "\<forall>k. take 8 (uuid4 first_run k) = take 8 (uuid4 replay_run k)"
    by (simp add: first_run_def replay_run_def)
  have same: "ingest_videos first_run [''data/videos/news.mp4'']
      = ingest_videos replay_run [''data/videos/news.mp4'']"
    using t vc dr by blast
  show ?thesis using l d ids vc dr same by simp
qed

text \<open>
  C2 as stated does not hold: two ingestion runs over the same file that draw different
  UUIDs give the video different tokens, and the window \<open>[0, 20]\<close> different identities.
\<close>

theorem identity_across_runs_counterexample:
  "video_capture first_run ''data/videos/news.mp4'' = video_capture second_run ''data/videos/news.mp4''
   \<and> ingest_videos first_run [''data/videos/news.mp4'']
       = [\<lparr>video_id = ''1b9d6bcd'', filename = ''news.mp4'', file_path = ''data/videos/news.mp4'',
           duration_seconds = 25\<rparr>]
   \<and> ingest_videos second_run [''data/videos/news.mp4'']
       = [\<lparr>video_id = ''6ec0bd7f'', filename = ''news.mp4'', file_path = ''data/videos/news.mp4'',
           duration_seconds = 25\<rparr>]
   \<and> chunk_id repr2 ''1b9d6bcd'' 0 20 = ''1b9d6bcd_0.0_20.0''
   \<and> chunk_id repr2 ''6ec0bd7f'' 0 20 = ''6ec0bd7f_0.0_20.0''
   \<and> chunk_id repr2 ''1b9d6bcd'' 0 20 \<noteq> chunk_id repr2 ''6ec0bd7f'' 0 20"
  by (simp add: first_run_def second_run_def ingest_videos_def get_video_duration_def
      basename_def py_round2_def chunk_id_def repr2_def Let_def string_of_nat.simps digit_def)


section \<open>Properties of the fusion engine: the scene-change gate\<close>










section \<open>Properties of the fusion engine: the fused text\<close>

lemma add_chunk_to_db_rows:
  "rows (add_chunk_to_db raises fmt vid s e doc meta w) = rows w
   \<or> (\<exists>m. rows (add_chunk_to_db raises fmt vid s e doc meta w)
          = rows w @ [\<lparr>row_id = chunk_id fmt vid s e, row_document = doc, row_metadata = m\<rparr>])"
  using retry_loop_rows [of _ w raises]
  by (simp only: add_chunk_to_db_retry) blast

lemma visual_context_rows:
  "rows (snd (snd (snd (visual_context env p i s e sc w)))) = rows w"
  by (simp add: visual_context_def Let_def split: option.splits)

lemma process_chunk_rows:
  "\<exists>v t. rows (snd (process_chunk env vm segs n i c sc w)) = rows w
     \<or> (\<exists>m. rows (snd (process_chunk env vm segs n i c sc w))
          = rows w @ [\<lparr>row_id = chunk_id (float_repr env) (video_id vm) (w_start c) (w_end c),
                       row_document = final_text_of v t (audio_text_of segs (w_start c) (w_end c)),
                       row_metadata = m\<rparr>])"
proof -
  obtain v t sc' w1 where vc:
    "visual_context env (file_path vm) i (w_start c) (w_end c) sc w = (v, t, sc', w1)"
    by (cases "visual_context env (file_path vm) i (w_start c) (w_end c) sc w") auto
  have r1: "rows w1 = rows w"
    using visual_context_rows [of env "file_path vm" i "w_start c" "w_end c" sc w] vc by simp
  show ?thesis
    using add_chunk_to_db_rows [of "store_raises env" "float_repr env" "video_id vm"
        "w_start c" "w_end c" "final_text_of v t (audio_text_of segs (w_start c) (w_end c))" _ w1]
      vc r1
    by (simp add: process_chunk_def Let_def) blast
qed

lemma process_chunk_blank:
  assumes "extract_frame_at_time env (file_path vm) ((w_start c + w_end c) / 2) = None"
    and "filter (overlaps c) segs = []"
  shows "rows (snd (process_chunk env vm segs n i c sc w)) = rows w
     \<or> (\<exists>m. rows (snd (process_chunk env vm segs n i c sc w))
          = rows w @ [\<lparr>row_id = chunk_id (float_repr env) (video_id vm) (w_start c) (w_end c),
                       row_document = ''[Visual Scene]:  [On-Screen Text]:  [Audio Transcript]: '',
                       row_metadata = m\<rparr>])"
proof -
  have vc: "visual_context env (file_path vm) i (w_start c) (w_end c) sc w = ([], [], sc, w)"
    using assms(1) by (simp add: visual_context_def Let_def)
  have "chunk_text_parts segs (w_start c) (w_end c) [] = []"
    using chunk_text_parts_filter [of segs c "[]"] assms(2) by simp
  then have au: "audio_text_of segs (w_start c) (w_end c) = []"
    by (simp add: audio_text_of_def py_strip_def)
  have ft: "final_text_of [] [] [] = ''[Visual Scene]:  [On-Screen Text]:  [Audio Transcript]: ''"
    by (simp add: final_text_of_def)
  show ?thesis
    using add_chunk_to_db_rows [of "store_raises env" "float_repr env" "video_id vm"
        "w_start c" "w_end c" "final_text_of [] [] []" _ w]
      vc au
    by (simp add: process_chunk_def Let_def ft)
qed

lemma chunks_loop_rows:
  "r \<in> set (rows (chunks_loop env vm segs n i chunks sc w)) \<Longrightarrow>
   r \<in> set (rows w) \<or> (\<exists>v t a. row_document r = final_text_of v t a)"
proof (induction chunks arbitrary: i sc w)
  case Nil
  then show ?case by simp
next
  case (Cons c cs)
  obtain sc' w' where pc: "process_chunk env vm segs n i c sc w = (sc', w')"
    by (cases "process_chunk env vm segs n i c sc w") auto
  have "r \<in> set (rows w') \<or> (\<exists>v t a. row_document r = final_text_of v t a)"
    using Cons.IH [of "Suc i" sc' w'] Cons.prems pc by simp
  moreover have "r \<in> set (rows w') \<Longrightarrow>
      r \<in> set (rows w) \<or> (\<exists>v t a. row_document r = final_text_of v t a)"
  proof -
    assume rw: "r \<in> set (rows w')"
    obtain v t where vt: "rows w' = rows w
       \<or> (\<exists>m. rows w' = rows w @
             [\<lparr>row_id = chunk_id (float_repr env) (video_id vm) (w_start c) (w_end c),
               row_document = final_text_of v t (audio_text_of segs (w_start c) (w_end c)),
               row_metadata = m\<rparr>])"
      using process_chunk_rows [of env vm segs n i c sc w] pc by auto
    show ?thesis
    proof (cases "rows w' = rows w")
      case True
      then show ?thesis using rw by simp
    next
      case False
      then obtain m where m: "rows w' = rows w @
             [\<lparr>row_id = chunk_id (float_repr env) (video_id vm) (w_start c) (w_end c),
               row_document = final_text_of v t (audio_text_of segs (w_start c) (w_end c)),
               row_metadata = m\<rparr>]"
        using vt by blast
      show ?thesis
      proof (cases "r \<in> set (rows w)")
        case True
        then show ?thesis by simp
      next
        case False
        then have "row_document r = final_text_of v t (audio_text_of segs (w_start c) (w_end c))"
          using rw m by auto
        then show ?thesis by blast
      qed
    qed
  qed
  ultimately show ?case by blast
qed

text \<open>
  C9.  The text of a record is built as \<open>[Visual Scene]: \<close>, the caption,
  \<open> [On-Screen Text]: \<close>, the recognised text, \<open> [Audio Transcript]: \<close>, the audio text, in
  this order.  Every record that the loop over the chunks, and so \<open>process_single_video\<close>,
  adds to the store has a text of this form.  When a window has no keyframe and no
  overlapping segment, the three labels are all there with empty sections.
\<close>

theorem fused_text_sections:
  "final_text_of v t a
     = ''[Visual Scene]: '' @ v @ '' [On-Screen Text]: '' @ t @ '' [Audio Transcript]: '' @ a
   \<and> (\<forall>r \<in> set (rows (chunks_loop env vm segs n i chunks sc w)).
        r \<in> set (rows w) \<or> (\<exists>v t a. row_document r = final_text_of v t a))
   \<and> (process_single_video env vm w = Some w' \<longrightarrow>
        (\<forall>r \<in> set (rows w').
           r \<in> set (rows w) \<or> (\<exists>v t a. row_document r = final_text_of v t a)))
   \<and> (extract_frame_at_time env (file_path vm) ((w_start c + w_end c) / 2) = None
        \<and> filter (overlaps c) segs = [] \<longrightarrow>
        rows (snd (process_chunk env vm segs n i c sc w)) = rows w
        \<or> (\<exists>m. rows (snd (process_chunk env vm segs n i c sc w))
             = rows w @ [\<lparr>row_id = chunk_id (float_repr env) (video_id vm) (w_start c) (w_end c),
                          row_document = ''[Visual Scene]:  [On-Screen Text]:  [Audio Transcript]: '',
                          row_metadata = m\<rparr>]))"
proof -
  have a: "final_text_of v t a
     = ''[Visual Scene]: '' @ v @ '' [On-Screen Text]: '' @ t @ '' [Audio Transcript]: '' @ a"
    by (simp add: final_text_of_def)
  have b: "\<forall>r \<in> set (rows (chunks_loop env vm segs n i chunks sc w)).
        r \<in> set (rows w) \<or> (\<exists>v t a. row_document r = final_text_of v t a)"
    using chunks_loop_rows by blast
  have c: "process_single_video env vm w = Some w' \<longrightarrow>
        (\<forall>r \<in> set (rows w').
           r \<in> set (rows w) \<or> (\<exists>v t a. row_document r = final_text_of v t a))"
  proof
    assume h: "process_single_video env vm w = Some w'"
    have "w' = w \<or> (\<exists>segs chunks sc. w' = chunks_loop env vm segs (length chunks) 0 chunks sc w)"
      using h by (auto simp: process_single_video_def split: option.splits if_splits)
    then show "\<forall>r \<in> set (rows w').
           r \<in> set (rows w) \<or> (\<exists>v t a. row_document r = final_text_of v t a)"
      using chunks_loop_rows by blast
  qed
  have d: "extract_frame_at_time env (file_path vm) ((w_start c + w_end c) / 2) = None
        \<and> filter (overlaps c) segs = [] \<longrightarrow>
        rows (snd (process_chunk env vm segs n i c sc w)) = rows w
        \<or> (\<exists>m. rows (snd (process_chunk env vm segs n i c sc w))
             = rows w @ [\<lparr>row_id = chunk_id (float_repr env) (video_id vm) (w_start c) (w_end c),
                          row_document = ''[Visual Scene]:  [On-Screen Text]:  [Audio Transcript]: '',
                          row_metadata = m\<rparr>])"
    using process_chunk_blank [of env vm c segs n i sc w] by blast
  show ?thesis using a b c d by blast
qed

theorem fused_text_sections_witness:
  "extract_frame_at_time blank_video (file_path short_meta)
       ((w_start \<lparr>w_start = 0, w_end = 5\<rparr> + w_end \<lparr>w_start = 0, w_end = 5\<rparr>) / 2) = None
   \<and> filter (overlaps \<lparr>w_start = 0, w_end = 5\<rparr>)
        [\<lparr>seg_start = 30, seg_end = 31, seg_text = ''Good night.''\<rparr>] = []
   \<and> (rows (snd (process_chunk blank_video short_meta
          [\<lparr>seg_start = 30, seg_end = 31, seg_text = ''Good night.''\<rparr>] 1 0
          \<lparr>w_start = 0, w_end = 5\<rparr> scene0 empty_world)) = rows empty_world
        \<or> (\<exists>m. rows (snd (process_chunk blank_video short_meta
          [\<lparr>seg_start = 30, seg_end = 31, seg_text = ''Good night.''\<rparr>] 1 0
          \<lparr>w_start = 0, w_end = 5\<rparr> scene0 empty_world))
             = rows empty_world @
               [\<lparr>row_id = chunk_id (float_repr blank_video) (video_id short_meta)
                            (w_start \<lparr>w_start = 0, w_end = 5\<rparr>) (w_end \<lparr>w_start = 0, w_end = 5\<rparr>),
                 row_document = ''[Visual Scene]:  [On-Screen Text]:  [Audio Transcript]: '',
                 row_metadata = m\<rparr>]))
   \<and> process_single_video blank_video short_meta empty_world
        = Some (chunks_loop blank_video short_meta
            [\<lparr>seg_start = 30, seg_end = 31, seg_text = ''Good night.''\<rparr>] 1 0
            [\<lparr>w_start = 0, w_end = 5\<rparr>] scene0 empty_world)
   \<and> map row_document (rows (chunks_loop blank_video short_meta
            [\<lparr>seg_start = 30, seg_end = 31, seg_text = ''Good night.''\<rparr>] 1 0
            [\<lparr>w_start = 0, w_end = 5\<rparr>] scene0 empty_world))
        = [''[Visual Scene]:  [On-Screen Text]:  [Audio Transcript]: '']"
proof -
  let ?segs = "[\<lparr>seg_start = 30, seg_end = 31, seg_text = ''Good night.''\<rparr>]"
  let ?c = "\<lparr>w_start = 0, w_end = 5\<rparr>"
  note t = fused_text_sections [where env = blank_video and vm = short_meta and segs = ?segs
      and n = 1 and i = 0 and c = ?c and chunks = "[?c]" and sc = scene0 and w = empty_world]
  have fr: "extract_frame_at_time blank_video (file_path short_meta)
       ((w_start ?c + w_end ?c) / 2) = None"
    by (simp add: blank_video_def)
  have ov: "filter (overlaps ?c) ?segs = []"
    by (simp add: overlaps_def)
  have pcb: "rows (snd (process_chunk blank_video short_meta ?segs 1 0 ?c scene0 empty_world))
         = rows empty_world
        \<or> (\<exists>m. rows (snd (process_chunk blank_video short_meta ?segs 1 0 ?c scene0 empty_world))
             = rows empty_world @
               [\<lparr>row_id = chunk_id (float_repr blank_video) (video_id short_meta)
                            (w_start ?c) (w_end ?c),
                 row_document = ''[Visual Scene]:  [On-Screen Text]:  [Audio Transcript]: '',
                 row_metadata = m\<rparr>])"
    using t fr ov by blast
  have cw: "create_sliding_windows 5 20 10 = Some [?c]"
    unfolding create_sliding_windows_def
    by (subst windows_loop.simps) (simp add: Let_def py_round2_def)
  have p: "process_single_video blank_video short_meta empty_world
        = Some (chunks_loop blank_video short_meta ?segs 1 0 [?c] scene0 empty_world)"
  proof -
    have f1: "extract_audio blank_video (file_path short_meta) = Some ''data/temp_audio/news.mp3''"
      by (simp add: blank_video_def)
    have f2: "transcribe_audio blank_video ''data/temp_audio/news.mp3'' = Some ?segs"
      by (simp add: blank_video_def)
    have f3: "duration_seconds short_meta = 5" by (simp add: short_meta_def)
    show ?thesis
      by (simp add: process_single_video_def f1 f2 f3 cw scene0_def del: chunks_loop.simps)
  qed
  have docs: "map row_document (rows (chunks_loop blank_video short_meta ?segs 1 0 [?c]
          scene0 empty_world))
        = [''[Visual Scene]:  [On-Screen Text]:  [Audio Transcript]: '']"
    by (simp add: blank_video_def short_meta_def scene0_def empty_world_def
      process_chunk_def visual_context_def Let_def add_chunk_to_db_retry collection_add_cases
      never_raises_def audio_text_of_def py_strip_def final_text_of_def)
  show ?thesis using fr ov pcb p docs by - (intro conjI, assumption+)
qed

end
